theory Spec2Isabelle
  imports Complex_Main
begin

section \<open>Python values and strings\<close>

text \<open>
  A Python \<open>str\<close> is modelled as a \<open>string\<close>; each \<open>char\<close> stands for one
  code point below 256 (Latin-1).  The character classes below are the ones Python 3
  uses for these code points.  Entity values (\<open>Dict[str, Any]\<close>) are the JSON
  scalars: \<open>None\<close>, \<open>bool\<close>, \<open>int\<close>, \<open>float\<close> (as a real) and \<open>str\<close>.
\<close>

datatype pyval = PNone | PBool bool | PInt int | PFloat real | PStr string

text \<open>An \<open>AttributeError\<close> carries the type name and the attribute that is missing.\<close>

datatype attribute_error = AttributeError string string

definition attribute_error_str :: "attribute_error \<Rightarrow> string" where
  "attribute_error_str e =
     (case e of AttributeError ty attr \<Rightarrow>
        [CHR 0x27] @ ty @ [CHR 0x27] @ '' object has no attribute '' @ [CHR 0x27] @ attr @ [CHR 0x27])"

definition py_type_name :: "pyval \<Rightarrow> string" where
  "py_type_name v =
     (case v of PNone \<Rightarrow> ''NoneType'' | PBool _ \<Rightarrow> ''bool'' | PInt _ \<Rightarrow> ''int''
      | PFloat _ \<Rightarrow> ''float'' | PStr _ \<Rightarrow> ''str'')"

text \<open>\<open>str.isspace\<close> on one character.\<close>

definition py_isspace :: "char \<Rightarrow> bool" where
  "py_isspace c =
     (let n = (of_char c :: nat)
      in (9 \<le> n \<and> n \<le> 13) \<or> (28 \<le> n \<and> n \<le> 32) \<or> n = 133 \<or> n = 160)"

text \<open>\<open>str.strip()\<close>: leading and trailing whitespace removed.\<close>

definition strip :: "string \<Rightarrow> string" where
  "strip s = rev (dropWhile py_isspace (rev (dropWhile py_isspace s)))"

text \<open>
  \<open>str.lower()\<close>: the upper-case letters \<open>A\<close>-\<open>Z\<close> and \<open>0xC0\<close>-\<open>0xDE\<close> (but
  \<open>0xD7\<close>) move up by 32, which sets bit 5 of the code point.
\<close>

definition py_lower_char :: "char \<Rightarrow> char" where
  "py_lower_char c =
     (let n = (of_char c :: nat)
      in if (65 \<le> n \<and> n \<le> 90) \<or> (192 \<le> n \<and> n \<le> 222 \<and> n \<noteq> 215)
         then (case c of Char b0 b1 b2 b3 b4 b5 b6 b7 \<Rightarrow> Char b0 b1 b2 b3 b4 True b6 b7)
         else c)"

definition lower :: "string \<Rightarrow> string" where
  "lower s = map py_lower_char s"

fun startswith :: "string \<Rightarrow> string \<Rightarrow> bool" where
  "startswith s [] = True"
| "startswith [] (p # ps) = False"
| "startswith (c # s) (p # ps) = (c = p \<and> startswith s ps)"

text \<open>\<open>sub in s\<close> for two strings.\<close>

fun py_in :: "string \<Rightarrow> string \<Rightarrow> bool" where
  "py_in sub [] = (sub = [])"
| "py_in sub (c # s) = (startswith (c # s) sub \<or> py_in sub s)"

text \<open>\<open>s.split(sep)[-1]\<close> for a one-character separator: what follows its last occurrence.\<close>

definition split_last :: "char \<Rightarrow> string \<Rightarrow> string" where
  "split_last sep s = rev (takeWhile (\<lambda>c. c \<noteq> sep) (rev s))"

text \<open>\<open>v.strip()\<close> and \<open>v.lower()\<close> on a value of any type: only a \<open>str\<close> has them.\<close>

definition py_strip :: "pyval \<Rightarrow> attribute_error + string" where
  "py_strip v =
     (case v of PStr s \<Rightarrow> Inr (strip s) | _ \<Rightarrow> Inl (AttributeError (py_type_name v) ''strip''))"

definition py_lower :: "pyval \<Rightarrow> attribute_error + string" where
  "py_lower v =
     (case v of PStr s \<Rightarrow> Inr (lower s) | _ \<Rightarrow> Inl (AttributeError (py_type_name v) ''lower''))"

text \<open>Truth value of a value (\<open>not v\<close> is its negation).\<close>

definition py_truthy :: "pyval \<Rightarrow> bool" where
  "py_truthy v =
     (case v of PNone \<Rightarrow> False | PBool b \<Rightarrow> b | PInt i \<Rightarrow> i \<noteq> 0
      | PFloat r \<Rightarrow> r \<noteq> 0 | PStr s \<Rightarrow> s \<noteq> [])"

text \<open>\<open>isinstance(v, (int, float))\<close>; a \<open>bool\<close> is an \<open>int\<close> in Python.\<close>

definition is_int_or_float :: "pyval \<Rightarrow> bool" where
  "is_int_or_float v = (case v of PBool _ \<Rightarrow> True | PInt _ \<Rightarrow> True | PFloat _ \<Rightarrow> True | _ \<Rightarrow> False)"

text \<open>The number a numeric value compares as.\<close>

definition py_number :: "pyval \<Rightarrow> real" where
  "py_number v =
     (case v of PBool b \<Rightarrow> (if b then 1 else 0) | PInt i \<Rightarrow> real_of_int i
      | PFloat r \<Rightarrow> r | _ \<Rightarrow> 0)"

section \<open>Commands (\<open>nlp_processor.CommandResult\<close>)\<close>

text \<open>
  \<open>timestamp\<close> is a reading of \<open>datetime.now()\<close> in microseconds.
  \<open>entities\<close> is a dictionary from entity names to values.
\<close>

record CommandResult =
  intent :: string
  entities :: "string \<rightharpoonup> pyval"
  confidence :: real
  requires_confirmation :: bool
  raw_text :: string
  processing_method :: string
  timestamp :: int

text \<open>\<open>d.get(k, default)\<close>.\<close>

definition dict_get :: "(string \<rightharpoonup> pyval) \<Rightarrow> string \<Rightarrow> pyval \<Rightarrow> pyval" where
  "dict_get d k dflt = (case d k of None \<Rightarrow> dflt | Some v \<Rightarrow> v)"

section \<open>The validator (\<open>command_dispatcher.CommandValidator\<close>)\<close>

text \<open>
  Every validation function returns the pair \<open>(ok, reason)\<close> of the source, or the
  \<open>AttributeError\<close> that \<open>.strip()\<close> or \<open>.lower()\<close> raises on a value that is not a
  string.  The functions read the command and return a fresh pair: nothing of the
  command is assigned to.
\<close>

type_synonym validation = "attribute_error + (bool \<times> string option)"

definition dangerous_apps :: "string list" where
  "dangerous_apps = [''regedit'', ''cmd'', ''powershell'', ''terminal'', ''taskmgr'']"

definition validate_open_app :: "CommandResult \<Rightarrow> validation" where
  "validate_open_app command =
     (case py_strip (dict_get (entities command) ''app_name'' (PStr [])) of
        Inl e \<Rightarrow> Inl e
      | Inr app_name \<Rightarrow>
          if app_name = [] then Inr (False, Some ''Application name required'')
          else if lower app_name \<in> set (map lower dangerous_apps)
          then Inr (False, Some (''Cannot open '' @ app_name @ '' for security reasons''))
          else Inr (True, None))"

definition validate_close_app :: "CommandResult \<Rightarrow> validation" where
  "validate_close_app command =
     (case py_strip (dict_get (entities command) ''app_name'' (PStr [])) of
        Inl e \<Rightarrow> Inl e
      | Inr app_name \<Rightarrow>
          if app_name = [] then Inr (False, Some ''Application name required'')
          else Inr (True, None))"

definition validate_send_email :: "CommandResult \<Rightarrow> validation" where
  "validate_send_email command =
     (case py_strip (dict_get (entities command) ''recipient'' (PStr [])) of
        Inl e \<Rightarrow> Inl e
      | Inr recipient \<Rightarrow>
         (case py_strip (dict_get (entities command) ''message'' (PStr [])) of
            Inl e \<Rightarrow> Inl e
          | Inr msg \<Rightarrow>
              if recipient = [] then Inr (False, Some ''Email recipient required'')
              else if msg = [] then Inr (False, Some ''Email message required'')
              else if \<not> py_in ''@'' recipient \<or> \<not> py_in ''.'' (split_last CHR ''@'' recipient)
              then Inr (False, Some ''Invalid email address'')
              else Inr (True, None)))"

definition validate_system_command :: "CommandResult \<Rightarrow> validation" where
  "validate_system_command command =
     (if \<not> requires_confirmation command
      then Inr (False, Some ''System commands require confirmation'')
      else Inr (True, None))"

definition validate_timer_command :: "CommandResult \<Rightarrow> validation" where
  "validate_timer_command command =
     (let time_value = dict_get (entities command) ''time_value'' PNone;
          time_unit = dict_get (entities command) ''time_unit'' (PStr [])
      in if \<not> py_truthy time_value \<or> \<not> is_int_or_float time_value
         then Inr (False, Some ''Invalid time value'')
         else if py_number time_value \<le> 0 then Inr (False, Some ''Time must be positive'')
         else (case py_lower time_unit of
                 Inl e \<Rightarrow> Inl e
               | Inr unit_lower \<Rightarrow>
                   if py_in ''minute'' unit_lower
                   then (if py_number time_value > 1440
                         then Inr (False, Some ''Timer cannot exceed 24 hours'')
                         else Inr (True, None))
                   else if py_in ''hour'' unit_lower
                   then (if py_number time_value > 24
                         then Inr (False, Some ''Timer cannot exceed 24 hours'')
                         else Inr (True, None))
                   else Inr (True, None)))"

definition validate_search_command :: "CommandResult \<Rightarrow> validation" where
  "validate_search_command command =
     (case py_strip (dict_get (entities command) ''query'' (PStr [])) of
        Inl e \<Rightarrow> Inl e
      | Inr query \<Rightarrow>
          if query = [] then Inr (False, Some ''Search query required'')
          else if length query > 1000 then Inr (False, Some ''Search query too long'')
          else Inr (True, None))"

definition validate_command :: "CommandResult \<Rightarrow> validation" where
  "validate_command command =
     (if confidence command < 0.3 then Inr (False, Some ''Command confidence too low'')
      else if intent command = ''unknown'' then Inr (False, Some ''Unknown command intent'')
      else if intent command = ''open_app'' then validate_open_app command
      else if intent command = ''close_app'' then validate_close_app command
      else if intent command = ''send_email'' then validate_send_email command
      else if intent command \<in> set [''shutdown_system'', ''restart_system'']
      then validate_system_command command
      else if intent command = ''set_timer'' then validate_timer_command command
      else if intent command \<in> set [''search_web'', ''search_youtube'', ''search_wikipedia'']
      then validate_search_command command
      else Inr (True, None))"

section \<open>The dispatcher (\<open>command_dispatcher.CommandDispatcher\<close>)\<close>

text \<open>\<open>str(v)\<close>. The text Python prints for a float is supplied by the world.\<close>

definition decimal_digit :: "nat \<Rightarrow> char" where
  "decimal_digit k = ''0123456789'' ! k"

fun decimal :: "nat \<Rightarrow> string" where
  "decimal n =
     (let units = [decimal_digit (n mod 10)]
      in if n div 10 = 0 then units else decimal (n div 10) @ units)"

definition int_str :: "int \<Rightarrow> string" where
  "int_str i = (if 0 \<le> i then decimal (nat i) else CHR ''-'' # decimal (nat (- i)))"

definition py_str :: "(real \<Rightarrow> string) \<Rightarrow> pyval \<Rightarrow> string" where
  "py_str fstr v =
     (case v of PNone \<Rightarrow> ''None'' | PBool b \<Rightarrow> (if b then ''True'' else ''False'')
      | PInt i \<Rightarrow> int_str i | PFloat r \<Rightarrow> fstr r | PStr s \<Rightarrow> s)"

text \<open>
  \<open>ExecutionResult\<close> and \<open>CommandHistory\<close>.  Their wall-clock fields
  (\<open>execution_time\<close>, \<open>timestamp\<close>) and the dispatcher's \<open>last_command_time\<close>
  are left out: no decision of the dispatcher reads them.
\<close>

record ExecutionResult =
  success :: bool
  message :: string
  data :: "(string \<rightharpoonup> pyval) option"
  error :: "string option"

record CommandHistory =
  command :: CommandResult
  result :: ExecutionResult

text \<open>
  The six handler objects of the dispatcher are external collaborators.  A handler is a
  bound method of one of them; what a call of it does is given by the world.
\<close>

datatype component =
  SystemControl | WebAutomation | InformationProvider
  | CommunicationHandler | EntertainmentController | PersonalAssistant

datatype handler = Handler component string

text \<open>
  What waiting for a handler ends in: it returned an \<open>ExecutionResult\<close>, it returned
  some other value, the wait of \<open>future.result(timeout)\<close> ran out (and the worker
  finished later, so that the executor could be left), or it raised (with \<open>str(e)\<close>).
\<close>

datatype handler_outcome =
  Returned ExecutionResult | ReturnedValue pyval | TimedOut | Raised string

text \<open>
  The world of the dispatcher: the outcome of the \<open>n\<close>-th handler call, and Python's
  text for a float.
\<close>

record world =
  invoke :: "nat \<Rightarrow> handler \<Rightarrow> CommandResult \<Rightarrow> handler_outcome"
  float_str :: "real \<Rightarrow> string"

text \<open>
  The state of a dispatcher.  The fields named after the handler objects say whether
  the object is set (\<open>None\<close> until \<open>initialize\<close>).  \<open>history_lock\<close> says whether
  \<open>threading.Lock\<close> is held.  \<open>handler_calls\<close> is a log of the handler calls made
  so far; the source has no such field.
\<close>

record CommandDispatcher =
  system_control :: bool
  web_automation :: bool
  information_provider :: bool
  communication_handler :: bool
  entertainment_controller :: bool
  personal_assistant :: bool
  command_history :: "CommandHistory list"
  commands_executed :: nat
  commands_failed :: nat
  history_lock :: bool
  handler_calls :: "(handler \<times> CommandResult) list"

definition max_history_size :: nat where
  "max_history_size = 100"

definition default_timeout :: nat where
  "default_timeout = 30"

text \<open>
  A call either returns a value and the new state, or blocks for ever on the history
  lock, with the state it has reached.  The model is sequential: while a call runs,
  nothing else releases a lock that is held.
\<close>

datatype 'a run = Returns 'a CommandDispatcher | Blocks CommandDispatcher

text \<open>The state a call ends in, whether it returned or blocked.\<close>

definition final_state :: "'a run \<Rightarrow> CommandDispatcher" where
  "final_state x = (case x of Returns r d \<Rightarrow> d | Blocks d \<Rightarrow> d)"

definition is_set :: "CommandDispatcher \<Rightarrow> component \<Rightarrow> bool" where
  "is_set d c =
     (case c of SystemControl \<Rightarrow> system_control d | WebAutomation \<Rightarrow> web_automation d
      | InformationProvider \<Rightarrow> information_provider d
      | CommunicationHandler \<Rightarrow> communication_handler d
      | EntertainmentController \<Rightarrow> entertainment_controller d
      | PersonalAssistant \<Rightarrow> personal_assistant d)"

definition handler_table :: "(string \<times> component \<times> string) list" where
  "handler_table =
    [(''open_app'', SystemControl, ''open_application''),
     (''close_app'', SystemControl, ''close_application''),
     (''get_weather'', InformationProvider, ''get_weather''),
     (''get_news'', InformationProvider, ''get_news''),
     (''search_web'', WebAutomation, ''search_google''),
     (''search_youtube'', WebAutomation, ''search_youtube''),
     (''search_wikipedia'', InformationProvider, ''get_wikipedia_summary''),
     (''send_email'', CommunicationHandler, ''send_email''),
     (''play_music'', EntertainmentController, ''play_music''),
     (''pause_resume_music'', EntertainmentController, ''pause_resume_music''),
     (''next_track'', EntertainmentController, ''next_track''),
     (''previous_track'', EntertainmentController, ''previous_track''),
     (''set_reminder'', PersonalAssistant, ''set_reminder''),
     (''set_timer'', PersonalAssistant, ''set_timer''),
     (''get_time'', InformationProvider, ''get_current_time''),
     (''get_date'', InformationProvider, ''get_current_date''),
     (''shutdown_system'', SystemControl, ''shutdown_system''),
     (''restart_system'', SystemControl, ''restart_system''),
     (''get_system_info'', SystemControl, ''get_system_info''),
     (''adjust_volume'', SystemControl, ''set_volume''),
     (''general_query'', InformationProvider, ''answer_general_question'')]"

text \<open>
  \<open>get_command_handlers\<close>: every key of the table is bound to the method when its
  object is set and to \<open>None\<close> otherwise.
\<close>

definition get_command_handlers :: "CommandDispatcher \<Rightarrow> string \<rightharpoonup> handler option" where
  "get_command_handlers d =
     map_of (map (\<lambda>(k, c, m). (k, if is_set d c then Some (Handler c m) else None)) handler_table)"

text \<open>\<open>handlers.get(command.intent)\<close>: \<open>None\<close> for a missing key too.\<close>

definition lookup_handler :: "CommandDispatcher \<Rightarrow> string \<Rightarrow> handler option" where
  "lookup_handler d i = (case get_command_handlers d i of None \<Rightarrow> None | Some h \<Rightarrow> h)"

definition execute_with_timeout ::
  "world \<Rightarrow> nat \<Rightarrow> handler \<Rightarrow> CommandResult \<Rightarrow> nat \<Rightarrow> ExecutionResult" where
  "execute_with_timeout w n h c timeout =
     (case invoke w n h c of
        Returned r \<Rightarrow> r
      | ReturnedValue v \<Rightarrow>
          \<lparr>success = True, message = py_str (float_str w) v,
           data = (if py_truthy v then Some [''result'' \<mapsto> v] else None), error = None\<rparr>
      | TimedOut \<Rightarrow>
          \<lparr>success = False,
           message = ''Command execution timed out after '' @ decimal timeout @ '' seconds'',
           data = None, error = Some ''Command timeout''\<rparr>
      | Raised e \<Rightarrow>
          \<lparr>success = False, message = ''Handler execution error: '' @ e,
           data = None, error = Some e\<rparr>)"

text \<open>
  \<open>_record_command\<close> takes the history lock, which is not reentrant: when the lock is
  held, the call never returns.
\<close>

definition record_command ::
  "CommandDispatcher \<Rightarrow> CommandResult \<Rightarrow> ExecutionResult \<Rightarrow> unit run" where
  "record_command d c r =
     (if history_lock d then Blocks d
      else let h = command_history d @ [\<lparr>command = c, result = r\<rparr>]
           in Returns ()
                (d\<lparr>command_history :=
                     (if length h > max_history_size then drop (length h - max_history_size) h
                      else h)\<rparr>))"

text \<open>The text of an optional string in an f-string.\<close>

definition opt_str :: "string option \<Rightarrow> string" where
  "opt_str x = (case x of None \<Rightarrow> ''None'' | Some s \<Rightarrow> s)"

definition confirmation_result :: "CommandResult \<Rightarrow> ExecutionResult" where
  "confirmation_result c =
     \<lparr>success = False,
      message = ''Command '' @ [CHR 0x27] @ intent c @ [CHR 0x27]
                @ '' requires confirmation. Please confirm to proceed.'',
      data = Some [''requires_confirmation'' \<mapsto> PBool True],
      error = Some ''Confirmation required''\<rparr>"

definition dispatch_command ::
  "world \<Rightarrow> CommandDispatcher \<Rightarrow> CommandResult \<Rightarrow> ExecutionResult run" where
  "dispatch_command w d c =
     (case validate_command c of
        Inl e \<Rightarrow>
          Returns
            \<lparr>success = False,
             message = ''Error executing command: '' @ attribute_error_str e,
             data = None, error = Some (attribute_error_str e)\<rparr>
            (d\<lparr>commands_failed := commands_failed d + 1\<rparr>)
      | Inr (is_valid, error_message) \<Rightarrow>
          if \<not> is_valid
          then Returns
                 \<lparr>success = False,
                  message = ''Command validation failed: '' @ opt_str error_message,
                  data = None, error = error_message\<rparr> d
          else (case lookup_handler d (intent c) of
                  None \<Rightarrow>
                    Returns
                      \<lparr>success = False,
                       message = ''No handler available for command: '' @ intent c,
                       data = None,
                       error = Some (''Unknown command intent: '' @ intent c)\<rparr> d
                | Some h \<Rightarrow>
                    if requires_confirmation c then Returns (confirmation_result c) d
                    else
                      (let r = execute_with_timeout w (length (handler_calls d)) h c default_timeout;
                           d1 = d\<lparr>handler_calls := handler_calls d @ [(h, c)]\<rparr>
                       in case record_command d1 c r of
                            Blocks d2 \<Rightarrow> Blocks d2
                          | Returns _ d2 \<Rightarrow>
                              Returns r (d2\<lparr>commands_executed := commands_executed d2 + 1\<rparr>))))"

text \<open>\<open>_create_undo_command\<close>; \<open>now\<close> is the reading of \<open>datetime.now()\<close>.\<close>

definition create_undo_command ::
  "world \<Rightarrow> int \<Rightarrow> CommandResult \<Rightarrow> CommandResult option" where
  "create_undo_command w now original_command =
     (if intent original_command = ''open_app''
      then Some \<lparr>intent = ''close_app'', entities = entities original_command,
                 confidence = confidence original_command, requires_confirmation = False,
                 raw_text = ''Close '' @ py_str (float_str w)
                              (dict_get (entities original_command) ''app_name'' (PStr [])),
                 processing_method = processing_method original_command, timestamp = now\<rparr>
      else if intent original_command = ''close_app''
      then Some \<lparr>intent = ''open_app'', entities = entities original_command,
                 confidence = confidence original_command, requires_confirmation = False,
                 raw_text = ''Open '' @ py_str (float_str w)
                              (dict_get (entities original_command) ''app_name'' (PStr [])),
                 processing_method = processing_method original_command, timestamp = now\<rparr>
      else if intent original_command = ''play_music''
      then Some \<lparr>intent = ''pause_resume_music'', entities = Map.empty,
                 confidence = confidence original_command, requires_confirmation = False,
                 raw_text = ''Pause music'',
                 processing_method = processing_method original_command, timestamp = now\<rparr>
      else None)"

definition cannot_undo :: "CommandResult \<Rightarrow> ExecutionResult" where
  "cannot_undo c =
     \<lparr>success = False, message = ''Cannot undo command: '' @ intent c, data = None, error = None\<rparr>"

text \<open>
  The loop of \<open>undo_last_command\<close> over \<open>reversed(self.command_history)\<close>, run with
  the lock held: \<open>d\<close> is the dispatcher with the lock taken, and a result that returns
  releases it.
\<close>

definition unlock :: "'a run \<Rightarrow> 'a run" where
  "unlock x = (case x of Returns r d \<Rightarrow> Returns r (d\<lparr>history_lock := False\<rparr>) | Blocks d \<Rightarrow> Blocks d)"

fun undo_scan ::
  "world \<Rightarrow> int \<Rightarrow> CommandDispatcher \<Rightarrow> CommandHistory list \<Rightarrow> ExecutionResult run" where
  "undo_scan w now d [] =
     Returns \<lparr>success = False, message = ''No successful commands to undo'',
              data = None, error = None\<rparr> d"
| "undo_scan w now d (entry # older) =
     (if success (result entry)
      then (if intent (command entry) \<in> set [''open_app'', ''close_app'', ''play_music'']
            then (case create_undo_command w now (command entry) of
                    Some undo_command \<Rightarrow> dispatch_command w d undo_command
                  | None \<Rightarrow> Returns (cannot_undo (command entry)) d)
            else Returns (cannot_undo (command entry)) d)
      else undo_scan w now d older)"

definition undo_last_command :: "world \<Rightarrow> int \<Rightarrow> CommandDispatcher \<Rightarrow> ExecutionResult run" where
  "undo_last_command w now d =
     (if history_lock d then Blocks d
      else let d1 = d\<lparr>history_lock := True\<rparr>
           in if command_history d1 = []
              then unlock (Returns \<lparr>success = False, message = ''No commands to undo'',
                                   data = None, error = None\<rparr> d1)
              else unlock (undo_scan w now d1 (rev (command_history d1))))"

section \<open>Regular expressions (the part of Python's \<open>re\<close> the patterns use)\<close>

text \<open>
  The patterns of the fallback processor are built from literals, the classes
  \<open>.\<close>, \<open>\s\<close> and \<open>\d\<close> under \<open>+\<close>, \<open>+?\<close> and \<open>*\<close>, alternation, optional parts,
  capturing groups, \<open>$\<close> and \<open>\b\<close>.  Matching is backtracking search; the matcher
  below lists every way a pattern can match at a position in the order in which the
  search tries them, so the first element is the match that \<open>re\<close> reports.
\<close>

datatype char_class = AnyChar | Whitespace | Digit

datatype regex =
    Lit string
  | OneOrMore char_class
  | OneOrMoreLazy char_class
  | ZeroOrMore char_class
  | Seq regex regex
  | Alt regex regex
  | Opt regex
  | Group nat regex
  | EndOfString
  | WordBoundary
  | Empty

text \<open>\<open>.\<close> is any character but a newline; \<open>\d\<close> is a decimal digit.\<close>

fun in_class :: "char_class \<Rightarrow> char \<Rightarrow> bool" where
  "in_class AnyChar c = (c \<noteq> CHR 0x0A)"
| "in_class Whitespace c = py_isspace c"
| "in_class Digit c = (48 \<le> (of_char c :: nat) \<and> (of_char c :: nat) \<le> 57)"

text \<open>\<open>\w\<close>: alphanumeric characters and the underscore.\<close>

definition is_word_char :: "char \<Rightarrow> bool" where
  "is_word_char c =
     (let n = (of_char c :: nat)
      in (48 \<le> n \<and> n \<le> 57) \<or> (65 \<le> n \<and> n \<le> 90) \<or> n = 95 \<or> (97 \<le> n \<and> n \<le> 122)
         \<or> n = 170 \<or> n = 178 \<or> n = 179 \<or> n = 181 \<or> n = 185 \<or> n = 186
         \<or> (188 \<le> n \<and> n \<le> 190) \<or> (192 \<le> n \<and> n \<le> 214) \<or> (216 \<le> n \<and> n \<le> 246)
         \<or> 248 \<le> n)"

text \<open>
  A position of the search: the character before it (if any), the text after it, and
  the groups captured so far.
\<close>

type_synonym position = "char option \<times> string \<times> string option list"

definition advance :: "position \<Rightarrow> nat \<Rightarrow> position" where
  "advance pos n =
     (case pos of (prev, rest, gs) \<Rightarrow>
        (if n = 0 then prev else Some (rest ! (n - 1)), drop n rest, gs))"

text \<open>
  A literal at the head of the text.  The flag says whether \<open>re.IGNORECASE\<close> is
  given, under which the characters are compared in lower case (the literals of the
  patterns are ASCII).
\<close>

fun starts_with_literal :: "bool \<Rightarrow> string \<Rightarrow> string \<Rightarrow> bool" where
  "starts_with_literal ic s [] = True"
| "starts_with_literal ic [] (p # ps) = False"
| "starts_with_literal ic (c # s) (p # ps) =
     ((if ic then py_lower_char c = py_lower_char p else c = p) \<and> starts_with_literal ic s ps)"

definition word_before :: "char option \<Rightarrow> bool" where
  "word_before prev = (case prev of None \<Rightarrow> False | Some c \<Rightarrow> is_word_char c)"

definition word_after :: "string \<Rightarrow> bool" where
  "word_after rest = (case rest of [] \<Rightarrow> False | c # _ \<Rightarrow> is_word_char c)"

fun re_matches :: "bool \<Rightarrow> regex \<Rightarrow> position \<Rightarrow> position list" where
  "re_matches ic (Lit s) (prev, rest, gs) =
     (if starts_with_literal ic rest s then [advance (prev, rest, gs) (length s)] else [])"
| "re_matches ic (OneOrMore cl) (prev, rest, gs) =
     map (advance (prev, rest, gs)) (rev [1 ..< Suc (length (takeWhile (in_class cl) rest))])"
| "re_matches ic (OneOrMoreLazy cl) (prev, rest, gs) =
     map (advance (prev, rest, gs)) [1 ..< Suc (length (takeWhile (in_class cl) rest))]"
| "re_matches ic (ZeroOrMore cl) (prev, rest, gs) =
     map (advance (prev, rest, gs)) (rev [0 ..< Suc (length (takeWhile (in_class cl) rest))])"
| "re_matches ic (Seq r1 r2) pos = concat (map (re_matches ic r2) (re_matches ic r1 pos))"
| "re_matches ic (Alt r1 r2) pos = re_matches ic r1 pos @ re_matches ic r2 pos"
| "re_matches ic (Opt r) pos = re_matches ic r pos @ [pos]"
| "re_matches ic (Group i r) (prev, rest, gs) =
     map (\<lambda>(prev', rest', gs').
            (prev', rest', gs'[i := Some (take (length rest - length rest') rest)]))
         (re_matches ic r (prev, rest, gs))"
| "re_matches ic EndOfString (prev, rest, gs) =
     (if rest = [] \<or> rest = [CHR 0x0A] then [(prev, rest, gs)] else [])"
| "re_matches ic WordBoundary (prev, rest, gs) =
     (if word_before prev \<noteq> word_after rest then [(prev, rest, gs)] else [])"
| "re_matches ic Empty pos = [pos]"

fun group_count :: "regex \<Rightarrow> nat" where
  "group_count (Seq r1 r2) = group_count r1 + group_count r2"
| "group_count (Alt r1 r2) = group_count r1 + group_count r2"
| "group_count (Opt r) = group_count r"
| "group_count (Group i r) = Suc (group_count r)"
| "group_count r = 0"

text \<open>
  \<open>re.match(pattern, text)\<close>, with or without \<open>re.IGNORECASE\<close>: a match at the
  start of the text.  The result is
  \<open>match.groups()\<close>, one entry for every group of the pattern, \<open>None\<close> for a group
  that took no part in the match.
\<close>

definition re_match :: "bool \<Rightarrow> regex \<Rightarrow> string \<Rightarrow> string option list option" where
  "re_match ic r s =
     (case re_matches ic r (None, s, replicate (group_count r) None) of
        [] \<Rightarrow> None
      | (prev, rest, gs) # _ \<Rightarrow> Some gs)"

text \<open>\<open>re.search(pattern, text)\<close> as a truth value: a match at some position.\<close>

fun search_from :: "bool \<Rightarrow> regex \<Rightarrow> char option \<Rightarrow> string \<Rightarrow> bool" where
  "search_from ic r prev [] = (re_matches ic r (prev, [], replicate (group_count r) None) \<noteq> [])"
| "search_from ic r prev (c # cs) =
     (re_matches ic r (prev, c # cs, replicate (group_count r) None) \<noteq> []
      \<or> search_from ic r (Some c) cs)"

definition re_search :: "bool \<Rightarrow> regex \<Rightarrow> string \<Rightarrow> bool" where
  "re_search ic r s = search_from ic r None s"

text \<open>Shorthands for writing the patterns down.\<close>

fun seq :: "regex list \<Rightarrow> regex" where
  "seq [] = Empty"
| "seq [r] = r"
| "seq (r # rs) = Seq r (seq rs)"

fun alt :: "regex list \<Rightarrow> regex" where
  "alt [] = Empty"
| "alt [r] = r"
| "alt (r # rs) = Alt r (alt rs)"

definition lits :: "string list \<Rightarrow> regex" where
  "lits ss = alt (map Lit ss)"

definition ws :: regex where
  "ws = OneOrMore Whitespace"

definition lazy_group :: "nat \<Rightarrow> regex" where
  "lazy_group i = Group i (OneOrMoreLazy AnyChar)"

section \<open>The fallback processor (\<open>nlp_processor.FallbackProcessor\<close>)\<close>

text \<open>
  The patterns of every intent follow, each list after its source text.
\<close>

definition app_suffix :: regex where
  "app_suffix = Opt (seq [ws, lits [''app'', ''application'', ''program'']])"

definition weather_place :: regex where
  "weather_place = Opt (seq [ws, lits [''in'', ''for'', ''at''], ws, Group 0 (OneOrMore AnyChar)])"

definition news_topic :: regex where
  "news_topic = Opt (seq [ws, lits [''about'', ''on''], ws, lazy_group 0])"

definition time_unit_group :: "nat \<Rightarrow> regex" where
  "time_unit_group i = Group i (lits [''minute'', ''minutes'', ''hour'', ''hours''])"

definition machine :: regex where
  "machine = seq [ws, Opt (seq [Lit ''the'', ws]), lits [''computer'', ''pc'', ''system''], EndOfString]"

text \<open>
  The patterns of \<open>open_app\<close>:
  \<^verbatim>\<open>(?:open|launch|start|run)\s+(.+?)(?:\s+(?:app|application|program))?$\<close>,
  \<^verbatim>\<open>(?:start|run)\s+(.+?)$\<close>,
  \<^verbatim>\<open>open\s+(.+?)\s+app$\<close>.
\<close>

definition open_app_patterns :: "regex list" where
  "open_app_patterns =
    [seq [lits [''open'', ''launch'', ''start'', ''run''], ws, lazy_group 0, app_suffix, EndOfString],
     seq [lits [''start'', ''run''], ws, lazy_group 0, EndOfString],
     seq [Lit ''open'', ws, lazy_group 0, ws, Lit ''app'', EndOfString]]"

text \<open>
  The patterns of \<open>close_app\<close>:
  \<^verbatim>\<open>(?:close|quit|exit|stop)\s+(.+?)(?:\s+(?:app|application|program))?$\<close>,
  \<^verbatim>\<open>(?:close|quit)\s+(.+?)$\<close>,
  \<^verbatim>\<open>shutdown\s+(.+?)\s+app$\<close>.
\<close>

definition close_app_patterns :: "regex list" where
  "close_app_patterns =
    [seq [lits [''close'', ''quit'', ''exit'', ''stop''], ws, lazy_group 0, app_suffix, EndOfString],
     seq [lits [''close'', ''quit''], ws, lazy_group 0, EndOfString],
     seq [Lit ''shutdown'', ws, lazy_group 0, ws, Lit ''app'', EndOfString]]"

text \<open>
  The patterns of \<open>get_weather\<close>:
  \<^verbatim>\<open>(?:what'?s?|tell me|show me)\s+(?:the\s+)?weather(?:\s+(?:in|for|at)\s+(.+))?$\<close>,
  \<^verbatim>\<open>weather(?:\s+(?:in|for|at)\s+(.+))?$\<close>,
  \<^verbatim>\<open>(?:how'?s?|what'?s? the) weather(?:\s+(?:in|for|at)\s+(.+))?$\<close>.
\<close>

definition get_weather_patterns :: "regex list" where
  "get_weather_patterns =
    [seq [alt [seq [Lit ''what'', Opt (Lit [CHR 0x27]), Opt (Lit ''s'')], Lit ''tell me'', Lit ''show me''],
          ws, Opt (seq [Lit ''the'', ws]), Lit ''weather'', weather_place, EndOfString],
     seq [Lit ''weather'', weather_place, EndOfString],
     seq [alt [seq [Lit ''how'', Opt (Lit [CHR 0x27]), Opt (Lit ''s'')],
               seq [Lit ''what'', Opt (Lit [CHR 0x27]), Opt (Lit ''s''), Lit '' the'']],
          Lit '' weather'', weather_place, EndOfString]]"

text \<open>
  The patterns of \<open>search_web\<close>:
  \<^verbatim>\<open>(?:search|google|look up)\s+(.+?)\s*(?:on\s+google)?$\<close>,
  \<^verbatim>\<open>(?:find|find out|tell me about)\s+(.+?)$\<close>,
  \<^verbatim>\<open>(?:what\s+is|who\s+is|where\s+is)\s+(.+?)$\<close>.
\<close>

definition search_web_patterns :: "regex list" where
  "search_web_patterns =
    [seq [lits [''search'', ''google'', ''look up''], ws, lazy_group 0, ZeroOrMore Whitespace,
          Opt (seq [Lit ''on'', ws, Lit ''google'']), EndOfString],
     seq [lits [''find'', ''find out'', ''tell me about''], ws, lazy_group 0, EndOfString],
     seq [alt [seq [Lit ''what'', ws, Lit ''is''], seq [Lit ''who'', ws, Lit ''is''],
               seq [Lit ''where'', ws, Lit ''is'']],
          ws, lazy_group 0, EndOfString]]"

text \<open>
  The patterns of \<open>search_youtube\<close>:
  \<^verbatim>\<open>(?:search|play|find)\s+(.+?)\s+on\s+youtube$\<close>,
  \<^verbatim>\<open>youtube\s+(.+?)$\<close>,
  \<^verbatim>\<open>(?:play|watch)\s+(.+?)\s+on\s+youtube$\<close>.
\<close>

definition search_youtube_patterns :: "regex list" where
  "search_youtube_patterns =
    [seq [lits [''search'', ''play'', ''find''], ws, lazy_group 0, ws, Lit ''on'', ws,
          Lit ''youtube'', EndOfString],
     seq [Lit ''youtube'', ws, lazy_group 0, EndOfString],
     seq [lits [''play'', ''watch''], ws, lazy_group 0, ws, Lit ''on'', ws,
          Lit ''youtube'', EndOfString]]"

text \<open>
  The patterns of \<open>search_wikipedia\<close>:
  \<^verbatim>\<open>(?:search|look up)\s+(.+?)\s+on\s+wikipedia$\<close>,
  \<^verbatim>\<open>wikipedia\s+(.+?)$\<close>,
  \<^verbatim>\<open>tell me about\s+(.+?)$\<close>.
\<close>

definition search_wikipedia_patterns :: "regex list" where
  "search_wikipedia_patterns =
    [seq [lits [''search'', ''look up''], ws, lazy_group 0, ws, Lit ''on'', ws,
          Lit ''wikipedia'', EndOfString],
     seq [Lit ''wikipedia'', ws, lazy_group 0, EndOfString],
     seq [Lit ''tell me about'', ws, lazy_group 0, EndOfString]]"

text \<open>
  The patterns of \<open>set_reminder\<close>:
  \<^verbatim>\<open>(?:remind|reminder)\s+(?:me\s+)?(?:to\s+)?(.+?)(?:\s+in\s+(\d+)\s+(minute|minutes|hour|hours))?$\<close>,
  \<^verbatim>\<open>(?:set\s+)?reminder\s+(?:to\s+)?(.+?)$\<close>,
  \<^verbatim>\<open>remind\s+me\s+(.+?)$\<close>.
\<close>

definition set_reminder_patterns :: "regex list" where
  "set_reminder_patterns =
    [seq [lits [''remind'', ''reminder''], ws, Opt (seq [Lit ''me'', ws]), Opt (seq [Lit ''to'', ws]),
          lazy_group 0,
          Opt (seq [ws, Lit ''in'', ws, Group 1 (OneOrMore Digit), ws, time_unit_group 2]),
          EndOfString],
     seq [Opt (seq [Lit ''set'', ws]), Lit ''reminder'', ws, Opt (seq [Lit ''to'', ws]),
          lazy_group 0, EndOfString],
     seq [Lit ''remind'', ws, Lit ''me'', ws, lazy_group 0, EndOfString]]"

text \<open>
  The patterns of \<open>set_timer\<close>:
  \<^verbatim>\<open>(?:set\s+)?(?:a\s+)?timer\s+for\s+(\d+)\s+(minute|minutes|hour|hours)$\<close>,
  \<^verbatim>\<open>timer\s+(\d+)\s+(minute|minutes|hour|hours)$\<close>,
  \<^verbatim>\<open>(?:count|countdown)\s+(.+?)$\<close>.
\<close>

definition set_timer_patterns :: "regex list" where
  "set_timer_patterns =
    [seq [Opt (seq [Lit ''set'', ws]), Opt (seq [Lit ''a'', ws]), Lit ''timer'', ws, Lit ''for'', ws,
          Group 0 (OneOrMore Digit), ws, time_unit_group 1, EndOfString],
     seq [Lit ''timer'', ws, Group 0 (OneOrMore Digit), ws, time_unit_group 1, EndOfString],
     seq [lits [''count'', ''countdown''], ws, lazy_group 0, EndOfString]]"

text \<open>
  The patterns of \<open>play_music\<close>:
  \<^verbatim>\<open>(?:play|start)\s+(.+?)(?:\s+(?:music|song|track))?$\<close>,
  \<^verbatim>\<open>(?:listen to|hear)\s+(.+?)$\<close>,
  \<^verbatim>\<open>music\s+(.+?)$\<close>.
\<close>

definition play_music_patterns :: "regex list" where
  "play_music_patterns =
    [seq [lits [''play'', ''start''], ws, lazy_group 0,
          Opt (seq [ws, lits [''music'', ''song'', ''track'']]), EndOfString],
     seq [lits [''listen to'', ''hear''], ws, lazy_group 0, EndOfString],
     seq [Lit ''music'', ws, lazy_group 0, EndOfString]]"

text \<open>
  The patterns of \<open>send_email\<close>:
  \<^verbatim>\<open>(?:send|write)\s+(?:an\s+)?email\s+(?:to\s+)?(.+?)(?:\s+saying\s+(.+?))?$\<close>,
  \<^verbatim>\<open>email\s+(.+?)(?:\s+saying\s+(.+?))?$\<close>,
  \<^verbatim>\<open>(?:message|contact)\s+(.+?)$\<close>.
\<close>

definition send_email_patterns :: "regex list" where
  "send_email_patterns =
    [seq [lits [''send'', ''write''], ws, Opt (seq [Lit ''an'', ws]), Lit ''email'', ws,
          Opt (seq [Lit ''to'', ws]), lazy_group 0,
          Opt (seq [ws, Lit ''saying'', ws, lazy_group 1]), EndOfString],
     seq [Lit ''email'', ws, lazy_group 0,
          Opt (seq [ws, Lit ''saying'', ws, lazy_group 1]), EndOfString],
     seq [lits [''message'', ''contact''], ws, lazy_group 0, EndOfString]]"

text \<open>
  The patterns of \<open>get_time\<close>:
  \<^verbatim>\<open>(?:what\s+)?time\s+is\s+it$\<close>,
  \<^verbatim>\<open>(?:current\s+)?time$\<close>,
  \<^verbatim>\<open>(?:tell me the time|what time)$\<close>.
\<close>

definition get_time_patterns :: "regex list" where
  "get_time_patterns =
    [seq [Opt (seq [Lit ''what'', ws]), Lit ''time'', ws, Lit ''is'', ws, Lit ''it'', EndOfString],
     seq [Opt (seq [Lit ''current'', ws]), Lit ''time'', EndOfString],
     seq [lits [''tell me the time'', ''what time''], EndOfString]]"

text \<open>
  The patterns of \<open>get_date\<close>:
  \<^verbatim>\<open>(?:what\s+)?(?:day|date)\s+is\s+it$\<close>,
  \<^verbatim>\<open>(?:current\s+)?(?:day|date)$\<close>,
  \<^verbatim>\<open>(?:tell me the date|what date)$\<close>.
\<close>

definition get_date_patterns :: "regex list" where
  "get_date_patterns =
    [seq [Opt (seq [Lit ''what'', ws]), lits [''day'', ''date''], ws, Lit ''is'', ws, Lit ''it'',
          EndOfString],
     seq [Opt (seq [Lit ''current'', ws]), lits [''day'', ''date''], EndOfString],
     seq [lits [''tell me the date'', ''what date''], EndOfString]]"

text \<open>
  The patterns of \<open>shutdown_system\<close>:
  \<^verbatim>\<open>(?:shutdown|turn off|power off)\s+(?:the\s+)?(?:computer|pc|system)$\<close>,
  \<^verbatim>\<open>(?:shut\s+down|power\s+down)$\<close>.
\<close>

definition shutdown_system_patterns :: "regex list" where
  "shutdown_system_patterns =
    [seq [lits [''shutdown'', ''turn off'', ''power off''], machine],
     seq [alt [seq [Lit ''shut'', ws, Lit ''down''], seq [Lit ''power'', ws, Lit ''down'']],
          EndOfString]]"

text \<open>
  The patterns of \<open>restart_system\<close>:
  \<^verbatim>\<open>(?:restart|reboot|reboot)\s+(?:the\s+)?(?:computer|pc|system)$\<close>,
  \<^verbatim>\<open>(?:restart\s+computer|reboot\s+system)$\<close>.
\<close>

definition restart_system_patterns :: "regex list" where
  "restart_system_patterns =
    [seq [lits [''restart'', ''reboot'', ''reboot''], machine],
     seq [alt [seq [Lit ''restart'', ws, Lit ''computer''], seq [Lit ''reboot'', ws, Lit ''system'']],
          EndOfString]]"

text \<open>
  The patterns of \<open>get_news\<close>:
  \<^verbatim>\<open>(?:what'?s?\s+(?:the\s+)?latest\s+)?news(?:\s+(?:about|on)\s+(.+?))?$\<close>,
  \<^verbatim>\<open>(?:tell|show)\s+(?:me\s+)?(?:the\s+)?news(?:\s+(?:about|on)\s+(.+?))?$\<close>,
  \<^verbatim>\<open>(?:news|headlines)(?:\s+(?:about|on)\s+(.+?))?$\<close>.
\<close>

definition get_news_patterns :: "regex list" where
  "get_news_patterns =
    [seq [Opt (seq [Lit ''what'', Opt (Lit [CHR 0x27]), Opt (Lit ''s''), ws,
                    Opt (seq [Lit ''the'', ws]), Lit ''latest'', ws]),
          Lit ''news'', news_topic, EndOfString],
     seq [lits [''tell'', ''show''], ws, Opt (seq [Lit ''me'', ws]), Opt (seq [Lit ''the'', ws]),
          Lit ''news'', news_topic, EndOfString],
     seq [lits [''news'', ''headlines''], news_topic, EndOfString]]"

text \<open>\<open>intent_patterns\<close>, in the order of the dictionary.\<close>

definition intent_patterns :: "(string \<times> regex list) list" where
  "intent_patterns =
    [(''open_app'', open_app_patterns),
     (''close_app'', close_app_patterns),
     (''get_weather'', get_weather_patterns),
     (''search_web'', search_web_patterns),
     (''search_youtube'', search_youtube_patterns),
     (''search_wikipedia'', search_wikipedia_patterns),
     (''set_reminder'', set_reminder_patterns),
     (''set_timer'', set_timer_patterns),
     (''play_music'', play_music_patterns),
     (''send_email'', send_email_patterns),
     (''get_time'', get_time_patterns),
     (''get_date'', get_date_patterns),
     (''shutdown_system'', shutdown_system_patterns),
     (''restart_system'', restart_system_patterns),
     (''get_news'', get_news_patterns)]"

text \<open>
  \<open>sensitive_patterns\<close>:
  \<^verbatim>\<open>\b(password|secret|token|key|credential)\b\<close>,
  \<^verbatim>\<open>\b(delete|remove|uninstall)\s+.+\b\<close>,
  \<^verbatim>\<open>\b(format|erase|wipe)\s+.+\b\<close>,
  \<^verbatim>\<open>\b(administrator|root|sudo)\b\<close>.
\<close>

definition sensitive_patterns :: "regex list" where
  "sensitive_patterns =
    [seq [WordBoundary, Group 0 (lits [''password'', ''secret'', ''token'', ''key'', ''credential'']),
          WordBoundary],
     seq [WordBoundary, Group 0 (lits [''delete'', ''remove'', ''uninstall'']), ws,
          OneOrMore AnyChar, WordBoundary],
     seq [WordBoundary, Group 0 (lits [''format'', ''erase'', ''wipe'']), ws,
          OneOrMore AnyChar, WordBoundary],
     seq [WordBoundary, Group 0 (lits [''administrator'', ''root'', ''sudo'']), WordBoundary]]"

text \<open>The exceptions the fallback processor can raise.\<close>

datatype py_exception =
  RaisedAttributeError attribute_error | ValueError string | IndexError | TypeError

text \<open>
  \<open>int(s)\<close> for a string: surrounding whitespace is dropped (for \<open>int\<close> the
  characters \<open>0x1C\<close>-\<open>0x1F\<close> are not whitespace), one sign is allowed, and the digits
  may be separated by single underscores. CPython refuses a literal of more than
  \<open>sys.get_int_max_str_digits()\<close> digits with a \<open>ValueError\<close>; the program never changes
  the default of 4300. The limit counts the digit characters, leading zeros included;
  the sign, the underscores and the surrounding whitespace are not counted.
\<close>

definition int_isspace :: "char \<Rightarrow> bool" where
  "int_isspace c =
     (let n = (of_char c :: nat) in (9 \<le> n \<and> n \<le> 13) \<or> n = 32 \<or> n = 133 \<or> n = 160)"

definition is_digit :: "char \<Rightarrow> bool" where
  "is_digit c = (48 \<le> (of_char c :: nat) \<and> (of_char c :: nat) \<le> 57)"

fun digits_ok :: "string \<Rightarrow> bool" where
  "digits_ok [] = False"
| "digits_ok [c] = is_digit c"
| "digits_ok (c # d # cs) =
     (is_digit c \<and> (if d = CHR ''_'' then digits_ok cs else digits_ok (d # cs)))"

definition digits_value :: "string \<Rightarrow> int" where
  "digits_value s =
     foldl (\<lambda>acc c. 10 * acc + (int (of_char c) - 48)) 0 (filter (\<lambda>c. c \<noteq> CHR ''_'') s)"

definition int_max_str_digits :: nat where
  "int_max_str_digits = 4300"

definition digit_count :: "string \<Rightarrow> nat" where
  "digit_count s = length (filter (\<lambda>c. c \<noteq> CHR ''_'') s)"

text \<open>The digits after the sign: well formed and within the limit, or a \<open>ValueError\<close>.\<close>

definition int_of_digits :: "string \<Rightarrow> string \<Rightarrow> py_exception + int" where
  "int_of_digits s ds =
     (if digits_ok ds \<and> digit_count ds \<le> int_max_str_digits then Inr (digits_value ds)
      else Inl (ValueError s))"

definition py_int :: "string \<Rightarrow> py_exception + int" where
  "py_int s =
     (let t = rev (dropWhile int_isspace (rev (dropWhile int_isspace s)))
      in case t of
           [] \<Rightarrow> Inl (ValueError s)
         | c # cs \<Rightarrow>
             if c = CHR ''-'' then case_sum Inl (\<lambda>n. Inr (- n)) (int_of_digits s cs)
             else if c = CHR ''+'' then int_of_digits s cs
             else int_of_digits s t)"

text \<open>\<open>int(g)\<close> and \<open>g.strip()\<close> for a group, which is a string or \<open>None\<close>.\<close>

definition int_of_group :: "string option \<Rightarrow> py_exception + int" where
  "int_of_group g = (case g of None \<Rightarrow> Inl TypeError | Some s \<Rightarrow> py_int s)"

definition strip_group :: "string option \<Rightarrow> py_exception + string" where
  "strip_group g =
     (case g of None \<Rightarrow> Inl (RaisedAttributeError (AttributeError ''NoneType'' ''strip''))
      | Some s \<Rightarrow> Inr (strip s))"

text \<open>Truth value of a group, and a group as an entity value.\<close>

definition group_truthy :: "string option \<Rightarrow> bool" where
  "group_truthy g = (case g of None \<Rightarrow> False | Some s \<Rightarrow> s \<noteq> [])"

definition group_value :: "string option \<Rightarrow> pyval" where
  "group_value g = (case g of None \<Rightarrow> PNone | Some s \<Rightarrow> PStr s)"

text \<open>\<open>groups[i]\<close>: an \<open>IndexError\<close> beyond the end of the tuple.\<close>

definition group_at :: "string option list \<Rightarrow> nat \<Rightarrow> py_exception + string option" where
  "group_at groups i = (if i < length groups then Inr (groups ! i) else Inl IndexError)"

definition and_then :: "'x + 'a \<Rightarrow> ('a \<Rightarrow> 'x + 'b) \<Rightarrow> 'x + 'b" where
  "and_then x f = case_sum Inl f x"

text \<open>The entities built from \<open>match.groups()\<close>, intent by intent.\<close>

definition extract_entities ::
  "string \<Rightarrow> string option list \<Rightarrow> py_exception + (string \<rightharpoonup> pyval)" where
  "extract_entities i groups =
     (if groups = [] then Inr Map.empty
      else if i = ''open_app'' \<or> i = ''close_app''
      then and_then (group_at groups 0) (\<lambda>g0. and_then (strip_group g0) (\<lambda>s.
             Inr [''app_name'' \<mapsto> PStr s]))
      else if i \<in> set [''get_weather'', ''search_web'', ''search_youtube'', ''search_wikipedia'']
      then and_then (group_at groups 0) (\<lambda>g0.
             if group_truthy g0 then and_then (strip_group g0) (\<lambda>s. Inr [''query'' \<mapsto> PStr s])
             else Inr [''query'' \<mapsto> PNone])
      else if i = ''set_reminder''
      then and_then (group_at groups 0) (\<lambda>g0. and_then (strip_group g0) (\<lambda>s.
             if length groups > 2 \<and> group_truthy (groups ! 1)
             then and_then (int_of_group (groups ! 1)) (\<lambda>n. and_then (group_at groups 2) (\<lambda>g2.
                    Inr [''message'' \<mapsto> PStr s, ''time_value'' \<mapsto> PInt n,
                         ''time_unit'' \<mapsto> group_value g2]))
             else Inr [''message'' \<mapsto> PStr s]))
      else if i = ''set_timer''
      then and_then (group_at groups 0) (\<lambda>g0. and_then (int_of_group g0) (\<lambda>n.
             and_then (group_at groups 1) (\<lambda>g1.
               Inr [''time_value'' \<mapsto> PInt n, ''time_unit'' \<mapsto> group_value g1])))
      else if i = ''play_music''
      then and_then (group_at groups 0) (\<lambda>g0. and_then (strip_group g0) (\<lambda>s.
             Inr [''song_or_playlist'' \<mapsto> PStr s]))
      else if i = ''send_email''
      then and_then (group_at groups 0) (\<lambda>g0. and_then (strip_group g0) (\<lambda>s.
             if length groups > 1 \<and> group_truthy (groups ! 1)
             then and_then (strip_group (groups ! 1)) (\<lambda>m.
                    Inr [''recipient'' \<mapsto> PStr s, ''message'' \<mapsto> PStr m])
             else Inr [''recipient'' \<mapsto> PStr s]))
      else Inr Map.empty)"

text \<open>
  The two nested loops over \<open>intent_patterns\<close>, which call
  \<open>re.match(pattern, text, re.IGNORECASE)\<close>: the first pattern that matches, with its
  intent and its groups.
\<close>

fun first_pattern :: "regex list \<Rightarrow> string \<Rightarrow> string option list option" where
  "first_pattern [] s = None"
| "first_pattern (p # ps) s =
     (case re_match True p s of Some groups \<Rightarrow> Some groups | None \<Rightarrow> first_pattern ps s)"

fun first_match ::
  "(string \<times> regex list) list \<Rightarrow> string \<Rightarrow> (string \<times> string option list) option" where
  "first_match [] s = None"
| "first_match ((i, patterns) # others) s =
     (case first_pattern patterns s of
        Some groups \<Rightarrow> Some (i, groups)
      | None \<Rightarrow> first_match others s)"

text \<open>\<open>any(re.search(pattern, text) for pattern in self.sensitive_patterns)\<close>.\<close>

definition is_sensitive :: "string \<Rightarrow> bool" where
  "is_sensitive s = list_ex (\<lambda>p. re_search False p s) sensitive_patterns"

text \<open>\<open>FallbackProcessor.process_command\<close>; \<open>now\<close> is the reading of the clock.\<close>

definition fallback_process_command :: "int \<Rightarrow> string \<Rightarrow> py_exception + CommandResult" where
  "fallback_process_command now text0 =
     (let txt = lower (strip text0);
          sensitive = is_sensitive txt
      in case first_match intent_patterns txt of
           Some (i, groups) \<Rightarrow>
             and_then (extract_entities i groups) (\<lambda>ents.
               Inr \<lparr>intent = i, entities = ents, confidence = 0.7,
                    requires_confirmation =
                      (sensitive \<or> i \<in> set [''shutdown_system'', ''restart_system'', ''send_email'']),
                    raw_text = txt, processing_method = ''fallback'', timestamp = now\<rparr>)
         | None \<Rightarrow>
             Inr \<lparr>intent = ''general_query'', entities = [''query'' \<mapsto> PStr txt], confidence = 0.3,
                  requires_confirmation = False, raw_text = txt,
                  processing_method = ''fallback'', timestamp = now\<rparr>)"

section \<open>The resolver (\<open>nlp_processor.NLPProcessor\<close>)\<close>

record CachedResponse =
  key :: string
  response :: CommandResult
  created_at :: int
  ttl_hours :: int

text \<open>
  What a call of the remote completion service ends in.  \<open>CompletionFailed\<close> stands for
  every exception inside the \<open>try\<close> block of \<open>_process_with_openai\<close> (transport
  error, a reply that is not JSON, a confidence that \<open>float\<close> rejects).  Otherwise
  the reply is a JSON object, of which the four keys the code reads are given: \<open>None\<close>
  for a key that is missing.
\<close>

record parsed_reply =
  reply_intent :: "string option"
  reply_entities :: "(string \<rightharpoonup> pyval) option"
  reply_confidence :: "real option"
  reply_requires_confirmation :: "bool option"

datatype completion = CompletionFailed | Completion parsed_reply

text \<open>
  The world of the resolver: \<open>hashlib.md5(...).hexdigest()\<close>, the \<open>n\<close>-th reading of
  \<open>datetime.now()\<close> in microseconds, and the outcome of the \<open>n\<close>-th call of the
  completion service.
\<close>

record resolver_world =
  md5_hexdigest :: "string \<Rightarrow> string"
  clock :: "nat \<Rightarrow> int"
  completion_service :: "nat \<Rightarrow> string \<Rightarrow> completion"

text \<open>
  The state of the resolver.  \<open>use_openai\<close>, \<open>cache_responses\<close> and
  \<open>cache_ttl_hours\<close> are the fields of its configuration; \<open>openai_client\<close> says
  whether the client is set.  \<open>clock_reads\<close> and \<open>remote_calls\<close> count the readings
  of the clock and the calls of the completion service made so far; the source has no
  such fields.  A TTL is taken to lie in the range of \<open>timedelta\<close>.
\<close>

record NLPProcessor =
  use_openai :: bool
  openai_client :: bool
  cache_responses :: bool
  cache_ttl_hours :: int
  cache :: "string \<rightharpoonup> CachedResponse"
  requests_made :: nat
  cache_hits :: nat
  clock_reads :: nat
  remote_calls :: nat

definition get_cache_key :: "resolver_world \<Rightarrow> string \<Rightarrow> string" where
  "get_cache_key w s = md5_hexdigest w (lower s)"

text \<open>\<open>timedelta(hours=h)\<close> in microseconds.\<close>

definition timedelta_hours :: "int \<Rightarrow> int" where
  "timedelta_hours h = h * 3600000000"

definition get_cached_response ::
  "resolver_world \<Rightarrow> NLPProcessor \<Rightarrow> string \<Rightarrow> CommandResult option \<times> NLPProcessor" where
  "get_cached_response w p s =
     (if \<not> cache_responses p then (None, p)
      else let cache_key = get_cache_key w s
           in case cache p cache_key of
                None \<Rightarrow> (None, p)
              | Some cached \<Rightarrow>
                  (let age = clock w (clock_reads p) - created_at cached;
                       p1 = p\<lparr>clock_reads := clock_reads p + 1\<rparr>
                   in if age < timedelta_hours (ttl_hours cached)
                      then (Some (response cached), p1)
                      else (None, p1\<lparr>cache := (cache p1)(cache_key := None)\<rparr>)))"

definition cache_response :: "resolver_world \<Rightarrow> NLPProcessor \<Rightarrow> string \<Rightarrow> CommandResult \<Rightarrow> NLPProcessor" where
  "cache_response w p s r =
     (if \<not> cache_responses p then p
      else let cache_key = get_cache_key w s
           in p\<lparr>cache := (cache p)(cache_key \<mapsto>
                   \<lparr>key = cache_key, response = r, created_at = clock w (clock_reads p),
                    ttl_hours = cache_ttl_hours p\<rparr>),
                 clock_reads := clock_reads p + 1\<rparr>)"

definition process_with_openai ::
  "resolver_world \<Rightarrow> NLPProcessor \<Rightarrow> string \<Rightarrow> CommandResult option \<times> NLPProcessor" where
  "process_with_openai w p s =
     (case (if cache_responses p then get_cached_response w p s else (None, p)) of
        (Some cached_result, p1) \<Rightarrow> (Some cached_result, p1\<lparr>cache_hits := cache_hits p1 + 1\<rparr>)
      | (None, p1) \<Rightarrow>
          (case completion_service w (remote_calls p1) s of
             CompletionFailed \<Rightarrow> (None, p1\<lparr>remote_calls := remote_calls p1 + 1\<rparr>)
           | Completion parsed \<Rightarrow>
               (let r = \<lparr>intent = (case reply_intent parsed of None \<Rightarrow> ''unknown'' | Some i \<Rightarrow> i),
                         entities = (case reply_entities parsed of None \<Rightarrow> Map.empty | Some e \<Rightarrow> e),
                         confidence = (case reply_confidence parsed of None \<Rightarrow> 0.5 | Some c \<Rightarrow> c),
                         requires_confirmation =
                           (case reply_requires_confirmation parsed of None \<Rightarrow> False | Some b \<Rightarrow> b),
                         raw_text = s, processing_method = ''openai'',
                         timestamp = clock w (clock_reads p1)\<rparr>;
                    p2 = p1\<lparr>remote_calls := remote_calls p1 + 1, clock_reads := clock_reads p1 + 1\<rparr>
                in (Some r, if cache_responses p2 then cache_response w p2 s r else p2))))"

text \<open>
  \<open>NLPProcessor.process_command\<close>.  \<open>_process_with_openai\<close> catches what the
  remote call and the parsing raise and returns \<open>None\<close>.  The fallback processor is
  called outside the \<open>try\<close> block, so what it raises leaves \<open>process_command\<close>.
\<close>

definition process_command ::
  "resolver_world \<Rightarrow> NLPProcessor \<Rightarrow> string \<Rightarrow> (py_exception + CommandResult) \<times> NLPProcessor" where
  "process_command w p text0 =
     (if text0 = [] \<or> strip text0 = []
      then (Inr \<lparr>intent = ''error'', entities = [''error'' \<mapsto> PStr ''Empty command''],
                 confidence = 0, requires_confirmation = False, raw_text = text0,
                 processing_method = ''error'', timestamp = clock w (clock_reads p)\<rparr>,
            p\<lparr>clock_reads := clock_reads p + 1\<rparr>)
      else let txt = strip text0
           in case (if use_openai p \<and> openai_client p then process_with_openai w p txt
                    else (None, p)) of
                (Some r, p1) \<Rightarrow> (Inr r, p1\<lparr>requests_made := requests_made p1 + 1\<rparr>)
              | (None, p1) \<Rightarrow>
                  (case fallback_process_command (clock w (clock_reads p1)) txt of
                     Inl e \<Rightarrow> (Inl e, p1)
                   | Inr r \<Rightarrow> (Inr r, p1\<lparr>clock_reads := clock_reads p1 + 1\<rparr>)))"

section \<open>The event loop (\<open>event_loop.EventLoop\<close>)\<close>

text \<open>
  \<open>CommandQueue\<close>, an item of the shared queue.  Its field \<open>queue\<close> is a
  \<open>queue.Queue(maxsize=1)\<close>, given by the list of the items it holds;
  \<open>timestamp\<close> (here \<open>timestamp_q\<close>) is a reading of \<open>datetime.now()\<close>.
\<close>

record CommandQueue =
  queue :: "string list"
  timestamp_q :: int
  source :: string

text \<open>
  The speech engine is handed to the constructor of \<open>EventLoop\<close>, which calls two of
  its methods, \<open>recognize_speech\<close> and \<open>speak\<close>.  \<open>main.py\<close> passes an instance of
  the class \<open>SpeechEngine\<close> of \<open>speech_engine.py\<close>, which defines
  \<open>recognize_speech\<close> and \<open>speak_response\<close> but no method \<open>speak\<close> (and no
  \<open>__getattr__\<close>): on it every call of \<open>speak\<close> raises an \<open>AttributeError\<close>.
  \<open>EngineWithSpeak\<close> stands for an object that has the method.
\<close>

datatype speech_engine = SpeechEngine | EngineWithSpeak

text \<open>What the two producers can raise, and \<open>str(e)\<close> of it.\<close>

datatype raised = QueueFull | NoAttribute attribute_error

definition raised_str :: "raised \<Rightarrow> string" where
  "raised_str e = (case e of QueueFull \<Rightarrow> [] | NoAttribute a \<Rightarrow> attribute_error_str a)"

text \<open>
  What a producer does that can be observed from outside, in the order in which it
  happens: a call of the logger, a sentence spoken, the time in seconds spent waiting
  inside \<open>command_queue.put\<close>, and a \<open>time.sleep\<close> (in seconds).
\<close>

datatype log_level = LogInfo | LogWarning | LogError

datatype event = Logged log_level string | Spoke string | PutWaited real | Slept real

text \<open>
  The world of the event loop.  \<open>recognize_speech w n t\<close> is what the \<open>n\<close>-th call of
  \<open>speech_engine.recognize_speech(timeout=t)\<close> returns, a text or \<open>None\<close> (the
  method catches every \<open>Exception\<close>).  \<open>datetime_now w n\<close> is the \<open>n\<close>-th reading of
  the clock.  \<open>slot_freed w n\<close> says, for the \<open>n\<close>-th \<open>put\<close> that finds the shared
  queue full, after how many seconds of waiting the consumer thread takes an item from
  the queue; \<open>None\<close> when it takes none while the producer waits.
\<close>

record loop_world =
  recognize_speech :: "nat \<Rightarrow> nat \<Rightarrow> string option"
  datetime_now :: "nat \<Rightarrow> int"
  slot_freed :: "nat \<Rightarrow> real option"

text \<open>
  The state of the event loop that the producers read and write.  \<open>wake_word_enabled\<close>
  and \<open>wake_word\<close> are the fields of \<open>config.audio\<close>.  \<open>command_queue\<close> is the
  shared \<open>queue.Queue(maxsize=100)\<close>, oldest item first.  \<open>events\<close>,
  \<open>recognitions\<close>, \<open>now_reads\<close> and \<open>full_puts\<close> are the trace of the producers and
  the numbers of calls made so far; the source has no such fields.
\<close>

record EventLoop =
  wake_word_enabled :: bool
  wake_word :: string
  speech_engine :: speech_engine
  command_queue :: "CommandQueue list"
  hotkey_active :: bool
  processing_command :: bool
  events :: "event list"
  recognitions :: nat
  now_reads :: nat
  full_puts :: nat

definition queue_maxsize :: nat where
  "queue_maxsize = 100"

definition logger :: "log_level \<Rightarrow> string \<Rightarrow> EventLoop \<Rightarrow> EventLoop" where
  "logger level msg l = l\<lparr>events := events l @ [Logged level msg]\<rparr>"

text \<open>\<open>time.sleep(t)\<close>.\<close>

definition time_sleep :: "real \<Rightarrow> EventLoop \<Rightarrow> EventLoop" where
  "time_sleep t l = l\<lparr>events := events l @ [Slept t]\<rparr>"

text \<open>
  \<open>self.command_queue.put(item, timeout=t)\<close> of the standard library.  With room in
  the queue the item is appended at once.  On a full queue the caller waits for a free
  slot: when the consumer takes the oldest item before \<open>t\<close> seconds have passed, the
  item is appended then; otherwise \<open>queue.Full\<close> is raised after \<open>t\<close> seconds.
\<close>

definition command_queue_put ::
  "loop_world \<Rightarrow> EventLoop \<Rightarrow> CommandQueue \<Rightarrow> real \<Rightarrow> (raised + unit) \<times> EventLoop" where
  "command_queue_put w l item timeout =
     (if length (command_queue l) < queue_maxsize
      then (Inr (), l\<lparr>command_queue := command_queue l @ [item]\<rparr>)
      else let l1 = l\<lparr>full_puts := full_puts l + 1\<rparr>;
               full = (Inl QueueFull, l1\<lparr>events := events l1 @ [PutWaited timeout]\<rparr>)
           in case slot_freed w (full_puts l) of
                None \<Rightarrow> full
              | Some t \<Rightarrow>
                  if t < timeout
                  then (Inr (), l1\<lparr>command_queue := tl (command_queue l1) @ [item],
                                    events := events l1 @ [PutWaited t]\<rparr>)
                  else full)"

text \<open>\<open>self.speech_engine.speak(text)\<close>.\<close>

definition speak :: "EventLoop \<Rightarrow> string \<Rightarrow> (raised + unit) \<times> EventLoop" where
  "speak l txt =
     (case speech_engine l of
        SpeechEngine \<Rightarrow> (Inl (NoAttribute (AttributeError ''SpeechEngine'' ''speak'')), l)
      | EngineWithSpeak \<Rightarrow> (Inr (), l\<lparr>events := events l @ [Spoke txt]\<rparr>))"

text \<open>\<open>self.speech_engine.recognize_speech(timeout=t)\<close>.\<close>

definition recognize :: "loop_world \<Rightarrow> EventLoop \<Rightarrow> nat \<Rightarrow> string option \<times> EventLoop" where
  "recognize w l timeout =
     (recognize_speech w (recognitions l) timeout, l\<lparr>recognitions := recognitions l + 1\<rparr>)"

text \<open>The two sentences of the producers.\<close>

definition listening_sentence :: string where
  "listening_sentence = ''Yes? I'' @ [CHR 0x27] @ ''m listening''"

definition busy_sentence :: string where
  "busy_sentence = ''I'' @ [CHR 0x27] @ ''m busy right now, please try again''"

text \<open>
  The statement both producers end in: the item is built (its own queue holds the
  recognised text), and \<open>put\<close> with a timeout of one second is tried; on \<open>queue.Full\<close>
  a warning is logged and the busy sentence is asked of the speech engine.
\<close>

definition enqueue_command ::
  "loop_world \<Rightarrow> EventLoop \<Rightarrow> string \<Rightarrow> string \<Rightarrow> (raised + unit) \<times> EventLoop" where
  "enqueue_command w l txt src =
     (let item = \<lparr>queue = [txt], timestamp_q = datetime_now w (now_reads l), source = src\<rparr>;
          l1 = l\<lparr>now_reads := now_reads l + 1\<rparr>
      in case command_queue_put w l1 item 1 of
           (Inr u, l2) \<Rightarrow> (Inr (), l2)
         | (Inl QueueFull, l2) \<Rightarrow>
             speak (logger LogWarning ''Command queue is full, dropping command'' l2) busy_sentence
         | (Inl (NoAttribute a), l2) \<Rightarrow> (Inl (NoAttribute a), l2))"


text \<open>\<open>_is_wake_word\<close>.\<close>

definition is_wake_word :: "EventLoop \<Rightarrow> string \<Rightarrow> bool" where
  "is_wake_word l txt =
     (if txt = [] then False
      else let text_lower = strip (lower txt);
               wake_word_lower = lower (wake_word l)
           in py_in wake_word_lower text_lower \<or> py_in text_lower wake_word_lower)"

text \<open>
  One pass through the body of the \<open>while\<close> loop of \<open>_wake_word_detection_loop\<close>:
  first the \<open>try\<close> block, which ends with \<open>time.sleep(0.1)\<close>, then the
  \<open>except Exception\<close> clause, which logs and sleeps for a second.
\<close>

definition wake_word_listen :: "loop_world \<Rightarrow> EventLoop \<Rightarrow> (raised + unit) \<times> EventLoop" where
  "wake_word_listen w l =
     (let (command, l1) = recognize w l 2
      in case command of
           None \<Rightarrow> (Inr (), l1)
         | Some c \<Rightarrow>
             if c \<noteq> [] \<and> is_wake_word l1 c
             then (case speak (logger LogInfo ''Wake word detected'' l1) listening_sentence of
                     (Inl e, l2) \<Rightarrow> (Inl e, l2)
                   | (Inr u, l2) \<Rightarrow>
                       (let (full_command, l3) = recognize w l2 10
                        in case full_command of
                             None \<Rightarrow> (Inr (), l3)
                           | Some f \<Rightarrow>
                               if f = [] then (Inr (), l3)
                               else enqueue_command w
                                      (logger LogInfo (''Command received: '' @ f) l3)
                                      f ''wake_word''))
             else (Inr (), l1))"

definition wake_word_detection_step :: "loop_world \<Rightarrow> EventLoop \<Rightarrow> EventLoop" where
  "wake_word_detection_step w l =
     (case (if wake_word_enabled l \<and> \<not> processing_command l then wake_word_listen w l
            else (Inr (), l)) of
        (Inr u, l1) \<Rightarrow> time_sleep 0.1 l1
      | (Inl e, l1) \<Rightarrow>
          time_sleep 1 (logger LogError (''Error in wake word detection: '' @ raised_str e) l1))"

section \<open>Example inputs\<close>

text \<open>Concrete worlds, states and commands on which the theorems below are exercised.\<close>

definition example_world :: world where
  "example_world =
     \<lparr>invoke = (\<lambda>n h c. Returned \<lparr>success = True, message = ''Done'', data = None, error = None\<rparr>),
      float_str = (\<lambda>r. ''0.0'')\<rparr>"

definition example_dispatcher :: CommandDispatcher where
  "example_dispatcher =
     \<lparr>system_control = True, web_automation = True, information_provider = True,
      communication_handler = True, entertainment_controller = True, personal_assistant = True,
      command_history = [], commands_executed = 0, commands_failed = 0,
      history_lock = False, handler_calls = []\<rparr>"

definition shutdown_command :: "bool \<Rightarrow> CommandResult" where
  "shutdown_command rc =
     \<lparr>intent = ''shutdown_system'', entities = Map.empty, confidence = 0.7,
      requires_confirmation = rc, raw_text = ''shutdown the computer'',
      processing_method = ''fallback'', timestamp = 0\<rparr>"

definition open_chrome :: CommandResult where
  "open_chrome =
     \<lparr>intent = ''open_app'', entities = [''app_name'' \<mapsto> PStr ''Chrome''], confidence = 0.7,
      requires_confirmation = False, raw_text = ''open Chrome'',
      processing_method = ''fallback'', timestamp = 0\<rparr>"

definition close_chrome :: "int \<Rightarrow> CommandResult" where
  "close_chrome now =
     \<lparr>intent = ''close_app'', entities = [''app_name'' \<mapsto> PStr ''Chrome''], confidence = 0.7,
      requires_confirmation = False, raw_text = ''Close Chrome'',
      processing_method = ''fallback'', timestamp = now\<rparr>"

definition get_time_command :: CommandResult where
  "get_time_command =
     \<lparr>intent = ''get_time'', entities = Map.empty, confidence = 0.7,
      requires_confirmation = False, raw_text = ''what time is it'',
      processing_method = ''fallback'', timestamp = 0\<rparr>"

definition done_result :: ExecutionResult where
  "done_result = \<lparr>success = True, message = ''Done'', data = None, error = None\<rparr>"

definition failed_result :: ExecutionResult where
  "failed_result =
     \<lparr>success = False, message = ''Handler execution error: boom'', data = None,
      error = Some ''boom''\<rparr>"

definition chrome_history :: "CommandHistory list" where
  "chrome_history =
     [\<lparr>command = get_time_command, result = done_result\<rparr>,
      \<lparr>command = open_chrome, result = done_result\<rparr>,
      \<lparr>command = get_time_command, result = failed_result\<rparr>]"

definition time_history :: "CommandHistory list" where
  "time_history =
     [\<lparr>command = open_chrome, result = done_result\<rparr>,
      \<lparr>command = get_time_command, result = done_result\<rparr>,
      \<lparr>command = open_chrome, result = failed_result\<rparr>]"

definition remote_open_chrome :: "int \<Rightarrow> CommandResult" where
  "remote_open_chrome t =
     \<lparr>intent = ''open_app'', entities = [''app_name'' \<mapsto> PStr ''chrome''], confidence = 0.9,
      requires_confirmation = False, raw_text = ''open chrome'',
      processing_method = ''openai'', timestamp = t\<rparr>"

definition example_resolver_world :: resolver_world where
  "example_resolver_world =
     \<lparr>md5_hexdigest = (\<lambda>s. s),
      clock = (\<lambda>n. int n * 1000000),
      completion_service =
        (\<lambda>n s. Completion \<lparr>reply_intent = Some ''open_app'',
                             reply_entities = Some [''app_name'' \<mapsto> PStr ''chrome''],
                             reply_confidence = Some 0.9,
                             reply_requires_confirmation = None\<rparr>)\<rparr>"

definition example_resolver :: NLPProcessor where
  "example_resolver =
     \<lparr>use_openai = True, openai_client = True, cache_responses = True, cache_ttl_hours = 1,
      cache = Map.empty, requests_made = 0, cache_hits = 0, clock_reads = 0, remote_calls = 0\<rparr>"

definition after_first_call :: NLPProcessor where
  "after_first_call =
     \<lparr>use_openai = True, openai_client = True, cache_responses = True, cache_ttl_hours = 1,
      cache = [''open chrome'' \<mapsto>
                \<lparr>key = ''open chrome'', response = remote_open_chrome 0,
                 created_at = 1000000, ttl_hours = 1\<rparr>],
      requests_made = 1, cache_hits = 0, clock_reads = 2, remote_calls = 1\<rparr>"

definition offline_resolver :: NLPProcessor where
  "offline_resolver = example_resolver\<lparr>use_openai := False\<rparr>"

text \<open>Two hours after the entry of \<open>after_first_call\<close> was stored.\<close>

definition late_world :: resolver_world where
  "late_world = example_resolver_world\<lparr>clock := (\<lambda>n. 7200000000 + int n)\<rparr>"

definition password_manager_command :: CommandResult where
  "password_manager_command =
     \<lparr>intent = ''open_app'', entities = [''app_name'' \<mapsto> PStr ''password manager''],
      confidence = 0.7, requires_confirmation = True, raw_text = ''open password manager'',
      processing_method = ''fallback'', timestamp = 0\<rparr>"





section \<open>Notions used in the proofs\<close>

text \<open>
  \<open>sets_group i r\<close>: every match of \<open>r\<close> captures group \<open>i\<close>.
  \<open>digits_group i r\<close>: group \<open>i\<close>, where it stands in \<open>r\<close>, is \<^verbatim>\<open>(\d+)\<close>.
  \<open>groups_inv\<close> relates the groups before and after a match of \<open>r\<close>.
\<close>

fun sets_group :: "nat \<Rightarrow> regex \<Rightarrow> bool" where
  "sets_group i (Group j r) = (i = j \<or> sets_group i r)"
| "sets_group i (Seq r1 r2) = (sets_group i r1 \<or> sets_group i r2)"
| "sets_group i (Alt r1 r2) = (sets_group i r1 \<and> sets_group i r2)"
| "sets_group i r = False"

fun digits_group :: "nat \<Rightarrow> regex \<Rightarrow> bool" where
  "digits_group i (Group j r) = (if i = j then r = OneOrMore Digit else digits_group i r)"
| "digits_group i (Seq r1 r2) = (digits_group i r1 \<and> digits_group i r2)"
| "digits_group i (Alt r1 r2) = (digits_group i r1 \<and> digits_group i r2)"
| "digits_group i (Opt r) = digits_group i r"
| "digits_group i r = True"

definition digit_string :: "string option \<Rightarrow> bool" where
  "digit_string g = (case g of None \<Rightarrow> True | Some s \<Rightarrow> s \<noteq> [] \<and> (\<forall>c \<in> set s. is_digit c))"

text \<open>\<open>short_group n g\<close>: the group \<open>g\<close>, if it took part, has at most \<open>n\<close> characters.\<close>

definition short_group :: "nat \<Rightarrow> string option \<Rightarrow> bool" where
  "short_group n g = (case g of None \<Rightarrow> True | Some s \<Rightarrow> length s \<le> n)"

definition groups_inv :: "regex \<Rightarrow> string option list \<Rightarrow> string option list \<Rightarrow> bool" where
  "groups_inv r gs gs' \<longleftrightarrow>
     length gs' = length gs
     \<and> (\<forall>j < length gs. gs ! j \<noteq> None \<longrightarrow> gs' ! j \<noteq> None)
     \<and> (\<forall>i < length gs. sets_group i r \<longrightarrow> gs' ! i \<noteq> None)
     \<and> (\<forall>i < length gs. digits_group i r \<longrightarrow> digit_string (gs ! i) \<longrightarrow> digit_string (gs' ! i))"

text \<open>
  \<open>stays_full w l t\<close>: while the next \<open>put\<close> on the full queue waits for \<open>t\<close>
  seconds, the consumer takes no item from it.
\<close>

definition stays_full :: "loop_world \<Rightarrow> EventLoop \<Rightarrow> real \<Rightarrow> bool" where
  "stays_full w l t = (case slot_freed w (full_puts l) of None \<Rightarrow> True | Some s \<Rightarrow> \<not> s < t)"

section \<open>Verified properties\<close>

subsection \<open>Validator and dispatcher\<close>

lemma lookup_handler_shutdown:
  "lookup_handler d ''shutdown_system''
     = (if system_control d then Some (Handler SystemControl ''shutdown_system'') else None)"
  by (simp add: lookup_handler_def get_command_handlers_def handler_table_def is_set_def)

lemma lookup_handler_close_app:
  "lookup_handler d ''close_app''
     = (if system_control d then Some (Handler SystemControl ''close_application'') else None)"
  by (simp add: lookup_handler_def get_command_handlers_def handler_table_def is_set_def)

lemma validate_shutdown_confirmed: "validate_command (shutdown_command True) = Inr (True, None)"
  by (simp add: validate_command_def validate_system_command_def shutdown_command_def)

lemma validate_shutdown_unconfirmed:
  "validate_command (shutdown_command False)
     = Inr (False, Some ''System commands require confirmation'')"
  by (simp add: validate_command_def validate_system_command_def shutdown_command_def)

lemma is_set_lock [simp]: "is_set (d\<lparr>history_lock := b\<rparr>) c = is_set d c"
  by (cases c) (simp_all add: is_set_def)

lemma lookup_handler_lock [simp]:
  "lookup_handler (d\<lparr>history_lock := b\<rparr>) i = lookup_handler d i"
  by (simp add: lookup_handler_def get_command_handlers_def)

text \<open>
  C2: a command whose intent is \<open>shutdown_system\<close> or \<open>restart_system\<close> and whose
  \<open>requires_confirmation\<close> is false is rejected by \<open>validate_command\<close>, whatever its
  other fields are: with "Command confidence too low" when the global gate fires first,
  with "System commands require confirmation" otherwise.  The validator only returns
  the pair; the command and its confirmation flag are not changed by it, and
  \<open>dispatch_command\<close> answers such a command with the validation failure, not with a
  request for confirmation.
\<close>

theorem validate_system_command_rejects:
  assumes "intent c = ''shutdown_system'' \<or> intent c = ''restart_system''"
    and "\<not> requires_confirmation c"
  shows "validate_command c =
           Inr (False, Some (if confidence c < 0.3 then ''Command confidence too low''
                             else ''System commands require confirmation''))
         \<and> (\<exists>reason. dispatch_command w d c =
               Returns \<lparr>success = False, message = ''Command validation failed: '' @ reason,
                        data = None, error = Some reason\<rparr> d)"
  using assms
  by (auto simp: validate_command_def validate_system_command_def dispatch_command_def opt_str_def)

theorem validate_system_command_rejects_witness:
  "validate_command (shutdown_command False)
     = Inr (False, Some ''System commands require confirmation'')"
  using validate_system_command_rejects [of "shutdown_command False"]
  by (simp add: shutdown_command_def)

text \<open>
  C1: a command with \<open>requires_confirmation\<close> set that passes validation and has a
  registered handler is stopped at the confirmation gate: \<open>dispatch_command\<close> returns
  the confirmation-needed result (\<open>success\<close> false, \<open>error\<close> "Confirmation required",
  \<open>data\<close> holding \<open>requires_confirmation: True\<close>), and the dispatcher is left as it
  was; in particular the log of handler calls is unchanged, so no handler ran.
\<close>

theorem dispatch_confirmation_gate:
  assumes "requires_confirmation c"
    and "validate_command c = Inr (True, reason)"
    and "lookup_handler d (intent c) = Some h"
  shows "dispatch_command w d c = Returns (confirmation_result c) d
         \<and> success (confirmation_result c) = False
         \<and> error (confirmation_result c) = Some ''Confirmation required''
         \<and> data (confirmation_result c) = Some [''requires_confirmation'' \<mapsto> PBool True]
         \<and> (case dispatch_command w d c of
               Returns r d' \<Rightarrow> handler_calls d' = handler_calls d
             | Blocks d' \<Rightarrow> False)"
  using assms by (simp add: dispatch_command_def confirmation_result_def)

theorem dispatch_confirmation_gate_witness:
  "dispatch_command example_world example_dispatcher (shutdown_command True)
     = Returns (confirmation_result (shutdown_command True)) example_dispatcher
   \<and> handler_calls example_dispatcher = []"
proof -
  have a: "requires_confirmation (shutdown_command True)"
    by (simp add: shutdown_command_def)
  have b: "lookup_handler example_dispatcher (intent (shutdown_command True))
             = Some (Handler SystemControl ''shutdown_system'')"
    by (simp add: lookup_handler_shutdown shutdown_command_def example_dispatcher_def)
  from dispatch_confirmation_gate [OF a validate_shutdown_confirmed b, of example_world]
  show ?thesis by (simp add: example_dispatcher_def)
qed

text \<open>
  C5, as the claim states it, fails: a command stopped at the confirmation gate is not
  appended to the history.  Dispatching the confirmed-flagged shutdown command on a
  dispatcher with an empty history returns "Confirmation required" and the history is
  still empty.
\<close>

theorem rejected_dispatch_not_in_history:
  "(case dispatch_command example_world example_dispatcher (shutdown_command True) of
      Returns r d \<Rightarrow>
        success r = False \<and> error r = Some ''Confirmation required'' \<and> command_history d = []
    | Blocks d \<Rightarrow> False)"
proof -
  have a: "requires_confirmation (shutdown_command True)"
    by (simp add: shutdown_command_def)
  have b: "lookup_handler example_dispatcher (intent (shutdown_command True))
             = Some (Handler SystemControl ''shutdown_system'')"
    by (simp add: lookup_handler_shutdown shutdown_command_def example_dispatcher_def)
  have "dispatch_command example_world example_dispatcher (shutdown_command True)
          = Returns (confirmation_result (shutdown_command True)) example_dispatcher"
    unfolding dispatch_command_def by (simp add: validate_shutdown_confirmed a b)
  then show ?thesis
    by (simp add: confirmation_result_def example_dispatcher_def)
qed

lemma validate_get_time: "validate_command get_time_command = Inr (True, None)"
  by (simp add: validate_command_def get_time_command_def)

lemma lookup_handler_get_time:
  "lookup_handler d ''get_time''
     = (if information_provider d then Some (Handler InformationProvider ''get_current_time'')
        else None)"
  by (simp add: lookup_handler_def get_command_handlers_def handler_table_def is_set_def)

text \<open>
  C5, amended: a command that fails validation, or that is stopped at the confirmation
  gate, makes \<open>dispatch_command\<close> return a failed result (its \<open>error\<close> is the
  validator's reason, or "Confirmation required") and leaves the dispatcher unchanged:
  nothing is appended to the history and no counter moves.  Only a command that
  reaches handler execution is recorded: whenever a call of \<open>dispatch_command\<close> ends
  with a history other than the one it started with, whether it returned or not, the
  command had passed validation, a handler was registered for its intent, no
  confirmation was required, and that handler was called with the command.
\<close>

theorem dispatch_rejection_leaves_state:
  "(validate_command c = Inr (False, reason) \<longrightarrow>
      dispatch_command w d c =
        Returns \<lparr>success = False, message = ''Command validation failed: '' @ opt_str reason,
                 data = None, error = reason\<rparr> d)
   \<and> (validate_command c = Inr (True, reason) \<and> lookup_handler d (intent c) = Some h
        \<and> requires_confirmation c \<longrightarrow>
      dispatch_command w d c = Returns (confirmation_result c) d
      \<and> success (confirmation_result c) = False
      \<and> error (confirmation_result c) = Some ''Confirmation required'')
   \<and> (command_history (final_state (dispatch_command w d c)) \<noteq> command_history d \<longrightarrow>
        (\<exists>h' reason'. validate_command c = Inr (True, reason')
           \<and> lookup_handler d (intent c) = Some h' \<and> \<not> requires_confirmation c
           \<and> handler_calls (final_state (dispatch_command w d c)) = handler_calls d @ [(h', c)]))"
proof (intro conjI)
  show "validate_command c = Inr (False, reason) \<longrightarrow>
      dispatch_command w d c =
        Returns \<lparr>success = False, message = ''Command validation failed: '' @ opt_str reason,
                 data = None, error = reason\<rparr> d"
    by (simp add: dispatch_command_def)
next
  show "validate_command c = Inr (True, reason) \<and> lookup_handler d (intent c) = Some h
        \<and> requires_confirmation c \<longrightarrow>
      dispatch_command w d c = Returns (confirmation_result c) d
      \<and> success (confirmation_result c) = False
      \<and> error (confirmation_result c) = Some ''Confirmation required''"
    by (simp add: dispatch_command_def confirmation_result_def)
next
  show "command_history (final_state (dispatch_command w d c)) \<noteq> command_history d \<longrightarrow>
        (\<exists>h' reason'. validate_command c = Inr (True, reason')
           \<and> lookup_handler d (intent c) = Some h' \<and> \<not> requires_confirmation c
           \<and> handler_calls (final_state (dispatch_command w d c)) = handler_calls d @ [(h', c)])"
  proof (cases "validate_command c")
    case (Inl e)
    then show ?thesis by (simp add: dispatch_command_def final_state_def)
  next
    case (Inr v)
    obtain ok msg where v: "v = (ok, msg)" by (cases v)
    show ?thesis
    proof (cases ok)
      case False
      then show ?thesis using Inr v by (simp add: dispatch_command_def final_state_def)
    next
      case True
      show ?thesis
      proof (cases "lookup_handler d (intent c)")
        case None
        then show ?thesis using Inr v True by (simp add: dispatch_command_def final_state_def)
      next
        case (Some h')
        show ?thesis
        proof (cases "requires_confirmation c")
          case rc: True
          then show ?thesis
            using Inr v True Some by (simp add: dispatch_command_def final_state_def)
        next
          case rc: False
          show ?thesis
          proof (cases "history_lock d")
            case locked: True
            then show ?thesis
              using Inr v True Some rc
              by (simp add: dispatch_command_def final_state_def record_command_def Let_def)
          next
            case free: False
            then show ?thesis
              using Inr v True Some rc
              by (simp add: dispatch_command_def final_state_def record_command_def Let_def)
          qed
        qed
      qed
    qed
  qed
qed

theorem dispatch_rejection_leaves_state_witness:
  "dispatch_command example_world example_dispatcher (shutdown_command False)
     = Returns \<lparr>success = False,
                message = ''Command validation failed: System commands require confirmation'',
                data = None, error = Some ''System commands require confirmation''\<rparr>
         example_dispatcher
   \<and> dispatch_command example_world example_dispatcher (shutdown_command True)
     = Returns (confirmation_result (shutdown_command True)) example_dispatcher
   \<and> command_history (final_state (dispatch_command example_world example_dispatcher get_time_command))
       = [\<lparr>command = get_time_command, result = done_result\<rparr>]
   \<and> command_history example_dispatcher = []
   \<and> handler_calls (final_state (dispatch_command example_world example_dispatcher get_time_command))
       = [(Handler InformationProvider ''get_current_time'', get_time_command)]"
proof -
  have a: "requires_confirmation (shutdown_command True)"
    by (simp add: shutdown_command_def)
  have b: "lookup_handler example_dispatcher (intent (shutdown_command True))
             = Some (Handler SystemControl ''shutdown_system'')"
    by (simp add: lookup_handler_shutdown shutdown_command_def example_dispatcher_def)
  from dispatch_rejection_leaves_state
         [of "shutdown_command False" "Some ''System commands require confirmation''"
             example_world example_dispatcher]
  have one: "dispatch_command example_world example_dispatcher (shutdown_command False)
     = Returns \<lparr>success = False,
                message = ''Command validation failed: System commands require confirmation'',
                data = None, error = Some ''System commands require confirmation''\<rparr>
         example_dispatcher"
    by (simp add: validate_shutdown_unconfirmed opt_str_def)
  from dispatch_rejection_leaves_state
         [of "shutdown_command True" None example_world example_dispatcher
             "Handler SystemControl ''shutdown_system''"]
  have two: "dispatch_command example_world example_dispatcher (shutdown_command True)
     = Returns (confirmation_result (shutdown_command True)) example_dispatcher"
    using a b by (simp add: validate_shutdown_confirmed)
  have i: "intent get_time_command = ''get_time''" "\<not> requires_confirmation get_time_command"
    by (simp_all add: get_time_command_def)
  have l: "lookup_handler example_dispatcher (intent get_time_command)
             = Some (Handler InformationProvider ''get_current_time'')"
    by (simp add: i lookup_handler_get_time example_dispatcher_def)
  have e: "command_history example_dispatcher = []" "handler_calls example_dispatcher = []"
    "\<not> history_lock example_dispatcher"
    by (simp_all add: example_dispatcher_def)
  have r: "execute_with_timeout example_world n h get_time_command t = done_result" for n h t
    by (simp add: execute_with_timeout_def example_world_def done_result_def)
  have "dispatch_command example_world example_dispatcher get_time_command
          = Returns done_result
              (example_dispatcher
                 \<lparr>handler_calls := [(Handler InformationProvider ''get_current_time'', get_time_command)],
                  command_history := [\<lparr>command = get_time_command, result = done_result\<rparr>],
                  commands_executed := commands_executed example_dispatcher + 1\<rparr>)"
    unfolding dispatch_command_def
    by (simp add: validate_get_time l i(2) r record_command_def Let_def max_history_size_def e)
  then have hist:
    "command_history (final_state (dispatch_command example_world example_dispatcher get_time_command))
       = [\<lparr>command = get_time_command, result = done_result\<rparr>]"
    by (simp add: final_state_def)
  then have changed:
    "command_history (final_state (dispatch_command example_world example_dispatcher get_time_command))
       \<noteq> command_history example_dispatcher"
    by (simp add: e)
  from dispatch_rejection_leaves_state [of get_time_command _ example_world example_dispatcher]
    changed
  obtain h' where "lookup_handler example_dispatcher (intent get_time_command) = Some h'"
    and "handler_calls (final_state (dispatch_command example_world example_dispatcher get_time_command))
           = handler_calls example_dispatcher @ [(h', get_time_command)]"
    by blast
  then have three:
    "handler_calls (final_state (dispatch_command example_world example_dispatcher get_time_command))
       = [(Handler InformationProvider ''get_current_time'', get_time_command)]"
    using l e by simp
  from one two hist e(1) three show ?thesis by simp
qed

subsection \<open>Undo\<close>

lemma undo_scan_skip_failed:
  "\<forall>x \<in> set fs. \<not> success (result x) \<Longrightarrow>
     undo_scan w now d (fs @ rest) = undo_scan w now d rest"
  by (induction fs) auto

lemma undo_last_command_scan:
  assumes "\<not> history_lock d"
    and "command_history d = older @ e # newer"
    and "\<forall>x \<in> set newer. \<not> success (result x)"
  shows "undo_last_command w now d
           = unlock (undo_scan w now (d\<lparr>history_lock := True\<rparr>) (e # rev older))"
proof -
  let ?d1 = "d\<lparr>history_lock := True\<rparr>"
  have ne: "command_history d \<noteq> []"
    using assms(2) by simp
  have "undo_last_command w now d = unlock (undo_scan w now ?d1 (rev (command_history d)))"
    using assms(1) ne by (simp add: undo_last_command_def Let_def)
  also have "rev (command_history d) = rev newer @ (e # rev older)"
    using assms(2) by simp
  also have "undo_scan w now ?d1 (rev newer @ (e # rev older)) = undo_scan w now ?d1 (e # rev older)"
    using assms(3) by (intro undo_scan_skip_failed) simp
  finally show ?thesis .
qed

text \<open>
  C6: when the most recent successful entry of the history is an \<open>open_app\<close> command
  (for instance with entities \<open>{app_name: "Chrome"}\<close>), \<open>undo_last_command\<close> builds
  a \<open>close_app\<close> command with the same entities and \<open>requires_confirmation\<close> false
  (its text is "Close Chrome"), and its outcome is that of \<open>dispatch_command\<close> on this
  command (which validates it again), run with the history lock held.  When the most
  recent successful entry has an intent outside \<open>open_app\<close>, \<open>close_app\<close>,
  \<open>play_music\<close>, the call returns "Cannot undo command" with the dispatcher unchanged,
  whatever the older entries are.
\<close>

theorem undo_last_command_open_app:
  assumes "\<not> history_lock d"
    and "command_history d = older @ e # newer"
    and "\<forall>x \<in> set newer. \<not> success (result x)"
    and "success (result e)"
  shows "(intent (command e) = ''open_app'' \<longrightarrow>
           undo_last_command w now d =
             unlock (dispatch_command w (d\<lparr>history_lock := True\<rparr>)
               \<lparr>intent = ''close_app'', entities = entities (command e),
                confidence = confidence (command e), requires_confirmation = False,
                raw_text = ''Close '' @ py_str (float_str w)
                             (dict_get (entities (command e)) ''app_name'' (PStr [])),
                processing_method = processing_method (command e),
                timestamp = now\<rparr>))
       \<and> (intent (command e) \<notin> {''open_app'', ''close_app'', ''play_music''} \<longrightarrow>
           undo_last_command w now d = Returns (cannot_undo (command e)) d)"
proof -
  have relock: "d\<lparr>history_lock := True\<rparr>\<lparr>history_lock := False\<rparr> = d"
    using assms(1) by simp
  show ?thesis
    unfolding undo_last_command_scan [OF assms(1,2,3)] using assms(4) relock
    by (auto simp: create_undo_command_def unlock_def)
qed

theorem undo_last_command_open_app_witness:
  "undo_last_command example_world 5 (example_dispatcher\<lparr>command_history := chrome_history\<rparr>)
     = unlock (dispatch_command example_world
                 (example_dispatcher\<lparr>command_history := chrome_history, history_lock := True\<rparr>)
                 (close_chrome 5))
   \<and> undo_last_command example_world 5 (example_dispatcher\<lparr>command_history := time_history\<rparr>)
     = Returns (cannot_undo get_time_command) (example_dispatcher\<lparr>command_history := time_history\<rparr>)"
proof -
  let ?d = "example_dispatcher\<lparr>command_history := chrome_history\<rparr>"
  let ?e = "\<lparr>command = open_chrome, result = done_result\<rparr>"
  have l: "\<not> history_lock ?d" by (simp add: example_dispatcher_def)
  have h: "command_history ?d = [\<lparr>command = get_time_command, result = done_result\<rparr>] @ ?e # [\<lparr>command = get_time_command, result = failed_result\<rparr>]"
    by (simp add: chrome_history_def)
  have f: "\<forall>x \<in> set [\<lparr>command = get_time_command, result = failed_result\<rparr>]. \<not> success (result x)"
    by (simp add: failed_result_def)
  have s: "success (result ?e)" by (simp add: done_result_def)
  from undo_last_command_open_app [OF l h f s, of example_world 5]
  have one: "undo_last_command example_world 5 ?d
     = unlock (dispatch_command example_world (?d\<lparr>history_lock := True\<rparr>) (close_chrome 5))"
    by (simp add: open_chrome_def close_chrome_def dict_get_def py_str_def)
  let ?d' = "example_dispatcher\<lparr>command_history := time_history\<rparr>"
  let ?e' = "\<lparr>command = get_time_command, result = done_result\<rparr>"
  have l': "\<not> history_lock ?d'" by (simp add: example_dispatcher_def)
  have h': "command_history ?d' = [\<lparr>command = open_chrome, result = done_result\<rparr>] @ ?e' # [\<lparr>command = open_chrome, result = failed_result\<rparr>]"
    by (simp add: time_history_def)
  have f': "\<forall>x \<in> set [\<lparr>command = open_chrome, result = failed_result\<rparr>]. \<not> success (result x)"
    by (simp add: failed_result_def)
  have s': "success (result ?e')" by (simp add: done_result_def)
  from undo_last_command_open_app [OF l' h' f' s', of example_world 5]
  have two: "undo_last_command example_world 5 ?d' = Returns (cannot_undo get_time_command) ?d'"
    by (simp add: get_time_command_def)
  from one two show ?thesis by simp
qed

text \<open>
  C7: \<open>undo_last_command\<close> holds the history lock while it calls
  \<open>dispatch_command\<close>.  When the most recent successful entry has a whitelisted intent
  and the inverse command passes validation and has a handler, the handler is called and
  the nested \<open>_record_command\<close> then blocks on the lock that is already held: the call
  never returns.  The same command dispatched with the lock free does return.
\<close>

theorem undo_self_deadlock:
  assumes "\<not> history_lock d"
    and "command_history d = older @ e # newer"
    and "\<forall>x \<in> set newer. \<not> success (result x)"
    and "success (result e)"
    and "intent (command e) \<in> {''open_app'', ''close_app'', ''play_music''}"
    and "create_undo_command w now (command e) = Some u"
    and "validate_command u = Inr (True, reason)"
    and "lookup_handler d (intent u) = Some h"
  shows "undo_last_command w now d =
           Blocks (d\<lparr>history_lock := True, handler_calls := handler_calls d @ [(h, u)]\<rparr>)
         \<and> (\<exists>r d'. dispatch_command w d u = Returns r d')"
proof -
  let ?d1 = "d\<lparr>history_lock := True\<rparr>"
  have nc: "\<not> requires_confirmation u"
    using assms(6) by (auto simp: create_undo_command_def split: if_splits)
  have lh: "lookup_handler ?d1 (intent u) = Some h"
    using assms(8) by simp
  have "dispatch_command w ?d1 u = Blocks (?d1\<lparr>handler_calls := handler_calls d @ [(h, u)]\<rparr>)"
    using assms(7) nc lh by (simp add: dispatch_command_def record_command_def Let_def)
  then have one: "undo_last_command w now d =
           Blocks (d\<lparr>history_lock := True, handler_calls := handler_calls d @ [(h, u)]\<rparr>)"
    unfolding undo_last_command_scan [OF assms(1,2,3)] using assms(4,5,6) by (auto simp: unlock_def)
  have two: "\<exists>r d'. dispatch_command w d u = Returns r d'"
    using assms(1,7,8) nc by (simp add: dispatch_command_def record_command_def Let_def)
  from one two show ?thesis by simp
qed

lemma validate_close_chrome: "validate_command (close_chrome now) = Inr (True, None)"
  by (simp add: validate_command_def validate_close_app_def close_chrome_def dict_get_def
      py_strip_def strip_def py_isspace_def)

theorem undo_self_deadlock_witness:
  "undo_last_command example_world 5 (example_dispatcher\<lparr>command_history := chrome_history\<rparr>)
     = Blocks (example_dispatcher
         \<lparr>command_history := chrome_history, history_lock := True,
          handler_calls := [(Handler SystemControl ''close_application'', close_chrome 5)]\<rparr>)"
proof -
  let ?d = "example_dispatcher\<lparr>command_history := chrome_history\<rparr>"
  let ?e = "\<lparr>command = open_chrome, result = done_result\<rparr>"
  have l: "\<not> history_lock ?d" by (simp add: example_dispatcher_def)
  have h: "command_history ?d = [\<lparr>command = get_time_command, result = done_result\<rparr>] @ ?e # [\<lparr>command = get_time_command, result = failed_result\<rparr>]"
    by (simp add: chrome_history_def)
  have f: "\<forall>x \<in> set [\<lparr>command = get_time_command, result = failed_result\<rparr>]. \<not> success (result x)"
    by (simp add: failed_result_def)
  have s: "success (result ?e)" by (simp add: done_result_def)
  have i: "intent (command ?e) \<in> {''open_app'', ''close_app'', ''play_music''}"
    by (simp add: open_chrome_def)
  have u: "create_undo_command example_world 5 (command ?e) = Some (close_chrome 5)"
    by (simp add: create_undo_command_def open_chrome_def close_chrome_def dict_get_def py_str_def)
  have lh: "lookup_handler ?d (intent (close_chrome 5)) = Some (Handler SystemControl ''close_application'')"
    by (simp add: close_chrome_def lookup_handler_close_app example_dispatcher_def)
  from undo_self_deadlock [OF l h f s i u validate_close_chrome lh]
  show ?thesis by (simp add: example_dispatcher_def)
qed

subsection \<open>The response cache\<close>


lemma lower_open_chrome: "lower ''open chrome'' = ''open chrome''"
  by code_simp


text \<open>
  C9: on a lookup with response caching enabled (the resolver looks the cache up only
  then), an entry whose age has reached or exceeds its TTL is not returned, and the
  same lookup removes it from the cache.
\<close>

theorem expired_entry_never_returned:
  assumes "cache_responses p"
    and "cache p (get_cache_key w s) = Some cached"
    and "timedelta_hours (ttl_hours cached) \<le> clock w (clock_reads p) - created_at cached"
  shows "fst (get_cached_response w p s) = None
         \<and> cache (snd (get_cached_response w p s)) (get_cache_key w s) = None"
  using assms by (simp add: get_cached_response_def Let_def)

theorem expired_entry_never_returned_witness:
  "fst (get_cached_response late_world after_first_call ''open chrome'') = None
   \<and> cache (snd (get_cached_response late_world after_first_call ''open chrome'')) ''open chrome'' = None"
proof -
  have k: "get_cache_key late_world ''open chrome'' = ''open chrome''"
    by (simp add: get_cache_key_def late_world_def example_resolver_world_def lower_open_chrome)
  have a: "cache_responses after_first_call"
    by (simp add: after_first_call_def)
  have b: "cache after_first_call (get_cache_key late_world ''open chrome'')
             = Some \<lparr>key = ''open chrome'', response = remote_open_chrome 0,
                      created_at = 1000000, ttl_hours = 1\<rparr>"
    by (simp add: k after_first_call_def)
  have c: "timedelta_hours (ttl_hours \<lparr>key = ''open chrome'', response = remote_open_chrome 0,
                      created_at = 1000000, ttl_hours = 1\<rparr>)
             \<le> clock late_world (clock_reads after_first_call)
                 - created_at \<lparr>key = ''open chrome'', response = remote_open_chrome 0,
                      created_at = 1000000, ttl_hours = 1\<rparr>"
    by (simp add: timedelta_hours_def late_world_def after_first_call_def)
  from expired_entry_never_returned [OF a b c] show ?thesis
    by (simp add: k)
qed






subsection \<open>The fallback processor and the resolver\<close>

lemma strip_Nil [simp]: "strip [] = []"
  by (simp add: strip_def)

lemma first_pattern_None_iff:
  "first_pattern ps s = None \<longleftrightarrow> (\<forall>r \<in> set ps. re_match True r s = None)"
  by (induction ps) (auto split: option.splits)

lemma first_match_None_iff:
  "first_match ips s = None \<longleftrightarrow> (\<forall>(i, ps) \<in> set ips. \<forall>r \<in> set ps. re_match True r s = None)"
proof (induction ips)
  case Nil
  then show ?case by simp
next
  case (Cons a ips)
  obtain i ps where a: "a = (i, ps)" by (cases a)
  show ?case
  proof (cases "first_pattern ps s")
    case None
    then show ?thesis using Cons a by (simp add: first_pattern_None_iff [symmetric])
  next
    case (Some gs)
    then have "\<not> (\<forall>r \<in> set ps. re_match True r s = None)"
      by (simp add: first_pattern_None_iff [symmetric])
    then show ?thesis using Some a by auto
  qed
qed

lemma strip_idem: "strip (strip s) = strip s"
proof -
  define ys where "ys = dropWhile py_isspace s"
  define t where "t = rev (dropWhile py_isspace (rev ys))"
  have t: "strip s = t" by (simp add: strip_def t_def ys_def)
  have "ys = rev (takeWhile py_isspace (rev ys) @ dropWhile py_isspace (rev ys))"
    by (simp only: takeWhile_dropWhile_id rev_rev_ident)
  also have "\<dots> = rev (dropWhile py_isspace (rev ys)) @ rev (takeWhile py_isspace (rev ys))"
    by (rule rev_append)
  finally have split: "ys = t @ rev (takeWhile py_isspace (rev ys))"
    by (simp only: t_def)
  have front: "dropWhile py_isspace t = t"
  proof (cases t)
    case Nil
    then show ?thesis by simp
  next
    case (Cons c cs)
    then have "ys \<noteq> []" "hd ys = c" using split by (cases ys; simp)+
    moreover have "ys \<noteq> [] \<Longrightarrow> \<not> py_isspace (hd ys)"
      unfolding ys_def by (rule hd_dropWhile)
    ultimately show ?thesis using Cons by simp
  qed
  have rear: "dropWhile py_isspace (rev t) = rev t"
    by (simp add: t_def)
  show ?thesis
    unfolding t by (simp add: strip_def front rear)
qed

lemma strip_hello: "strip ''hello'' = ''hello''"
  by code_simp

lemma no_match_hello: "first_match intent_patterns (lower ''hello'') = None"
  by code_simp

lemma no_match_empty: "first_match intent_patterns (lower (strip [])) = None"
  by code_simp

text \<open>
  C4, as the claim states it, fails for the empty utterance: no fallback pattern matches
  it, and the result is not the generic query but the command with intent "error" and
  confidence 0, which the guard at the head of \<open>process_command\<close> returns.
\<close>

theorem empty_utterance_is_error_command:
  "(case fst (process_command example_resolver_world offline_resolver []) of
      Inr c \<Rightarrow> intent c = ''error'' \<and> intent c \<noteq> ''general_query'' \<and> confidence c = 0
               \<and> confidence c \<noteq> 0.3
    | Inl e \<Rightarrow> False)
   \<and> first_match intent_patterns (lower (strip [])) = None"
proof -
  have "(case fst (process_command example_resolver_world offline_resolver []) of
      Inr c \<Rightarrow> intent c = ''error'' \<and> intent c \<noteq> ''general_query'' \<and> confidence c = 0
               \<and> confidence c \<noteq> 0.3
    | Inl e \<Rightarrow> False)"
    by (simp add: process_command_def)
  then show ?thesis using no_match_empty by (rule conjI)
qed

text \<open>What a match leaves in the groups, and why the entity code then returns.\<close>

lemma advance_groups: "advance (prev, rest, gs) n = (prev', rest', gs') \<Longrightarrow> gs' = gs"
  by (simp add: advance_def)

lemma groups_inv_same:
  "\<forall>i. \<not> sets_group i r \<Longrightarrow> groups_inv r gs gs"
  by (simp add: groups_inv_def)

lemma take_digits:
  assumes "1 \<le> n" and "n \<le> length (takeWhile (in_class Digit) rest)"
  shows "digit_string (Some (take (length rest - length (drop n rest)) rest))"
proof -
  let ?tw = "takeWhile (in_class Digit) rest"
  have le: "n \<le> length rest"
    using assms(2) length_takeWhile_le [of "in_class Digit" rest] by linarith
  then have n: "length rest - length (drop n rest) = n" by simp
  have "take n (?tw @ dropWhile (in_class Digit) rest)
          = take n ?tw @ take (n - length ?tw) (dropWhile (in_class Digit) rest)"
    by (rule take_append)
  also have "\<dots> = take n ?tw" using assms(2) by simp
  finally have "take n (?tw @ dropWhile (in_class Digit) rest) = take n ?tw" .
  then have tk: "take n rest = take n ?tw"
    by (simp only: takeWhile_dropWhile_id)
  have "\<forall>c \<in> set (take n ?tw). is_digit c"
  proof
    fix c assume "c \<in> set (take n ?tw)"
    then have "c \<in> set ?tw" by (rule in_set_takeD)
    then have "in_class Digit c" by (rule set_takeWhileD [THEN conjunct2])
    then show "is_digit c" by (simp add: is_digit_def)
  qed
  moreover have "take n ?tw \<noteq> []" using assms by (cases ?tw) auto
  moreover have "take (length rest - length (drop n rest)) rest = take n ?tw"
    by (simp only: n tk)
  ultimately show ?thesis by (simp only: digit_string_def option.case) simp
qed

lemma re_matches_groups:
  "(prev', rest', gs') \<in> set (re_matches ic r (prev, rest, gs)) \<Longrightarrow> groups_inv r gs gs'"
proof (induction r arbitrary: prev rest gs prev' rest' gs')
  case (Lit s)
  then show ?case by (auto simp: groups_inv_def advance_def split: if_splits)
next
  case (OneOrMore cl)
  then show ?case by (auto simp: groups_inv_def advance_def)
next
  case (OneOrMoreLazy cl)
  then show ?case by (auto simp: groups_inv_def advance_def)
next
  case (ZeroOrMore cl)
  then show ?case by (auto simp: groups_inv_def advance_def)
next
  case (Seq r1 r2)
  from Seq.prems obtain mid where mid: "mid \<in> set (re_matches ic r1 (prev, rest, gs))"
    and fin: "(prev', rest', gs') \<in> set (re_matches ic r2 mid)"
    by auto
  obtain pm rm gm where m: "mid = (pm, rm, gm)" by (cases mid)
  have a: "groups_inv r1 gs gm" using Seq.IH(1) mid m by simp
  have b: "groups_inv r2 gm gs'" using Seq.IH(2) fin m by simp
  show ?case using a b by (auto simp: groups_inv_def)
next
  case (Alt r1 r2)
  then have "groups_inv r1 gs gs' \<or> groups_inv r2 gs gs'" by auto
  then show ?case by (auto simp: groups_inv_def)
next
  case (Opt r)
  then have "groups_inv r gs gs' \<or> gs' = gs" by auto
  then show ?case by (auto simp: groups_inv_def)
next
  case (Group i r)
  from Group.prems obtain rest1 gs1 where
    mem: "(prev', rest1, gs1) \<in> set (re_matches ic r (prev, rest, gs))"
    and r': "rest' = rest1"
    and g': "gs' = gs1[i := Some (take (length rest - length rest1) rest)]"
    by auto
  have inv: "groups_inv r gs gs1" using Group.IH mem by simp
  have dig: "digit_string (gs' ! i)" if "r = OneOrMore Digit" "i < length gs"
  proof -
    from mem that(1) obtain n where n: "1 \<le> n" "n \<le> length (takeWhile (in_class Digit) rest)"
      and "rest1 = drop n rest"
      by (auto simp: advance_def)
    then have "digit_string (Some (take (length rest - length rest1) rest))"
      using take_digits [OF n] by simp
    moreover have "i < length gs1" using inv that(2) by (simp add: groups_inv_def)
    ultimately show ?thesis by (simp add: g')
  qed
  have len: "length gs1 = length gs" using inv by (simp add: groups_inv_def)
  show ?case unfolding groups_inv_def
  proof (intro conjI allI impI)
    show "length gs' = length gs" using len by (simp add: g')
  next
    fix j assume j: "j < length gs" "gs ! j \<noteq> None"
    then have "gs1 ! j \<noteq> None" using inv by (simp add: groups_inv_def)
    then show "gs' ! j \<noteq> None" using j(1) len by (cases "j = i") (simp_all add: g')
  next
    fix k assume k: "k < length gs" "sets_group k (Group i r)"
    show "gs' ! k \<noteq> None"
    proof (cases "k = i")
      case True
      then show ?thesis using k(1) len by (simp add: g')
    next
      case False
      then have "gs1 ! k \<noteq> None" using inv k by (simp add: groups_inv_def)
      then show ?thesis using False by (simp add: g')
    qed
  next
    fix k assume k: "k < length gs" "digits_group k (Group i r)" "digit_string (gs ! k)"
    show "digit_string (gs' ! k)"
    proof (cases "k = i")
      case True
      then show ?thesis using k(1,2) dig by simp
    next
      case False
      then have "digit_string (gs1 ! k)" using inv k by (simp add: groups_inv_def)
      then show ?thesis using False by (simp add: g')
    qed
  qed
next
  case EndOfString
  then show ?case by (auto simp: groups_inv_def split: if_splits)
next
  case WordBoundary
  then show ?case by (auto simp: groups_inv_def split: if_splits)
next
  case Empty
  then show ?case by (auto simp: groups_inv_def)
qed

lemma re_match_groups:
  assumes "re_match ic r s = Some gs"
  shows "length gs = group_count r"
    and "i < group_count r \<Longrightarrow> sets_group i r \<Longrightarrow> gs ! i \<noteq> None"
    and "i < group_count r \<Longrightarrow> digits_group i r \<Longrightarrow> digit_string (gs ! i)"
proof -
  let ?g0 = "replicate (group_count r) None :: string option list"
  from assms obtain prev' rest' where
    "(prev', rest', gs) \<in> set (re_matches ic r (None, s, ?g0))"
    by (auto simp: re_match_def split: list.splits)
  then have inv: "groups_inv r ?g0 gs" by (rule re_matches_groups)
  show "length gs = group_count r" using inv by (simp add: groups_inv_def)
  show "gs ! i \<noteq> None" if "i < group_count r" "sets_group i r"
    using inv that by (simp add: groups_inv_def)
  show "digit_string (gs ! i)" if "i < group_count r" "digits_group i r"
    using inv that by (simp add: groups_inv_def digit_string_def)
qed

lemma short_group_mono: "short_group m g \<Longrightarrow> m \<le> n \<Longrightarrow> short_group n g"
  by (cases g) (simp_all add: short_group_def)

lemma advance_short:
  "advance (prev, rest, gs) k = (prev', rest', gs') \<Longrightarrow> length rest' \<le> length rest \<and> gs' = gs"
  by (auto simp: advance_def)

lemma re_matches_short:
  "(prev', rest', gs') \<in> set (re_matches ic r (prev, rest, gs)) \<Longrightarrow>
   length rest \<le> n \<Longrightarrow> \<forall>g \<in> set gs. short_group n g \<Longrightarrow>
     length rest' \<le> length rest \<and> (\<forall>g \<in> set gs'. short_group n g)"
proof (induction r arbitrary: prev rest gs prev' rest' gs')
  case (Lit s)
  from Lit(1) have "advance (prev, rest, gs) (length s) = (prev', rest', gs')"
    by (simp split: if_splits)
  then have "length rest' \<le> length rest \<and> gs' = gs" by (rule advance_short)
  then show ?case using Lit(3) by simp
next
  case (OneOrMore cl)
  from OneOrMore(1) obtain k where "advance (prev, rest, gs) k = (prev', rest', gs')"
    by auto
  then have "length rest' \<le> length rest \<and> gs' = gs" by (rule advance_short)
  then show ?case using OneOrMore(3) by simp
next
  case (OneOrMoreLazy cl)
  from OneOrMoreLazy(1) obtain k where "advance (prev, rest, gs) k = (prev', rest', gs')"
    by auto
  then have "length rest' \<le> length rest \<and> gs' = gs" by (rule advance_short)
  then show ?case using OneOrMoreLazy(3) by simp
next
  case (ZeroOrMore cl)
  from ZeroOrMore(1) obtain k where "advance (prev, rest, gs) k = (prev', rest', gs')"
    by auto
  then have "length rest' \<le> length rest \<and> gs' = gs" by (rule advance_short)
  then show ?case using ZeroOrMore(3) by simp
next
  case (Seq r1 r2)
  from Seq.prems(1) obtain mid where mid: "mid \<in> set (re_matches ic r1 (prev, rest, gs))"
    and fin: "(prev', rest', gs') \<in> set (re_matches ic r2 mid)"
    by auto
  obtain pm rm gm where m: "mid = (pm, rm, gm)" by (cases mid)
  have mid': "(pm, rm, gm) \<in> set (re_matches ic r1 (prev, rest, gs))" using mid m by simp
  have fin': "(prev', rest', gs') \<in> set (re_matches ic r2 (pm, rm, gm))" using fin m by simp
  have a: "length rm \<le> length rest \<and> (\<forall>g \<in> set gm. short_group n g)"
    using mid' Seq.prems(2) Seq.prems(3) by (rule Seq.IH(1))
  then have le: "length rm \<le> n" using Seq.prems(2) by simp
  have gm: "\<forall>g \<in> set gm. short_group n g" using a by (rule conjunct2)
  have "length rest' \<le> length rm \<and> (\<forall>g \<in> set gs'. short_group n g)"
    using fin' le gm by (rule Seq.IH(2))
  then show ?case using a by simp
next
  case (Alt r1 r2)
  from Alt.prems(1) have "(prev', rest', gs') \<in> set (re_matches ic r1 (prev, rest, gs))
      \<or> (prev', rest', gs') \<in> set (re_matches ic r2 (prev, rest, gs))"
    by simp
  then show ?case
  proof
    assume "(prev', rest', gs') \<in> set (re_matches ic r1 (prev, rest, gs))"
    then show ?thesis using Alt.prems(2) Alt.prems(3) by (rule Alt.IH(1))
  next
    assume "(prev', rest', gs') \<in> set (re_matches ic r2 (prev, rest, gs))"
    then show ?thesis using Alt.prems(2) Alt.prems(3) by (rule Alt.IH(2))
  qed
next
  case (Opt r)
  from Opt.prems(1) have "(prev', rest', gs') \<in> set (re_matches ic r (prev, rest, gs))
      \<or> (prev', rest', gs') = (prev, rest, gs)"
    by auto
  then show ?case
  proof
    assume "(prev', rest', gs') \<in> set (re_matches ic r (prev, rest, gs))"
    then show ?thesis using Opt.prems(2) Opt.prems(3) by (rule Opt.IH)
  next
    assume "(prev', rest', gs') = (prev, rest, gs)"
    then show ?thesis using Opt.prems(2,3) by simp
  qed
next
  case (Group i r)
  from Group.prems(1) obtain rest1 gs1 where
    mem: "(prev', rest1, gs1) \<in> set (re_matches ic r (prev, rest, gs))"
    and r': "rest' = rest1"
    and g': "gs' = gs1[i := Some (take (length rest - length rest1) rest)]"
    by auto
  have a: "length rest1 \<le> length rest \<and> (\<forall>g \<in> set gs1. short_group n g)"
    using mem Group.prems(2) Group.prems(3) by (rule Group.IH)
  have new: "short_group n (Some (take (length rest - length rest1) rest))"
    using Group.prems(2) by (simp add: short_group_def)
  have "set gs' \<subseteq> insert (Some (take (length rest - length rest1) rest)) (set gs1)"
    unfolding g' by (rule set_update_subset_insert)
  then have "\<forall>g \<in> set gs'. short_group n g" using a new by blast
  then show ?case using a r' by simp
next
  case EndOfString
  from EndOfString(1) have "rest' = rest \<and> gs' = gs" by (simp split: if_splits)
  then show ?case using EndOfString(3) by simp
next
  case WordBoundary
  from WordBoundary(1) have "rest' = rest \<and> gs' = gs" by (simp split: if_splits)
  then show ?case using WordBoundary(3) by simp
next
  case Empty
  from Empty(1) have "rest' = rest \<and> gs' = gs" by simp
  then show ?case using Empty(3) by simp
qed

lemma re_match_short:
  assumes "re_match ic r s = Some gs"
  shows "\<forall>g \<in> set gs. short_group (length s) g"
proof -
  let ?g0 = "replicate (group_count r) None :: string option list"
  from assms obtain prev' rest' where
    mem: "(prev', rest', gs) \<in> set (re_matches ic r (None, s, ?g0))"
    by (auto simp: re_match_def split: list.splits)
  have le: "length s \<le> length s" by simp
  have g0: "\<forall>g \<in> set ?g0. short_group (length s) g" by (simp add: short_group_def)
  have "length rest' \<le> length s \<and> (\<forall>g \<in> set gs. short_group (length s) g)"
    using mem le g0 by (rule re_matches_short)
  then show ?thesis by (rule conjunct2)
qed

lemma strip_length: "length (strip s) \<le> length s"
proof -
  have "length (strip s) \<le> length (dropWhile py_isspace s)"
    using length_dropWhile_le [of py_isspace "rev (dropWhile py_isspace s)"]
    by (simp add: strip_def)
  also have "\<dots> \<le> length s" by (rule length_dropWhile_le)
  finally show ?thesis .
qed

lemma lower_strip_length: "length (lower (strip s)) \<le> length s"
  using strip_length [of s] by (simp add: lower_def)


lemma digits_ok_all: "s \<noteq> [] \<Longrightarrow> \<forall>c \<in> set s. is_digit c \<Longrightarrow> digits_ok s"
proof (induction s rule: digits_ok.induct)
  case 1
  then show ?case by simp
next
  case (2 c)
  then show ?case by simp
next
  case (3 c d cs)
  then have "is_digit d" by simp
  then have "d \<noteq> CHR ''_''" by (auto simp: is_digit_def)
  then show ?case using 3 by simp
qed

lemma digit_not_space: "is_digit c \<Longrightarrow> \<not> int_isspace c"
  by (auto simp: is_digit_def int_isspace_def Let_def)

lemma digit_count_le: "digit_count s \<le> length s"
  by (simp add: digit_count_def)

lemma py_int_digits:
  assumes "s \<noteq> []" and "\<forall>c \<in> set s. is_digit c" and "length s \<le> int_max_str_digits"
  shows "\<exists>n. py_int s = Inr n"
proof -
  have front: "dropWhile int_isspace s = s"
    using assms(1,2) by (cases s) (auto simp: digit_not_space)
  have "rev s \<noteq> []" "\<forall>c \<in> set (rev s). is_digit c" using assms(1,2) by simp_all
  then have rear: "dropWhile int_isspace (rev s) = rev s"
    by (cases "rev s") (auto simp: digit_not_space)
  obtain c cs where s: "s = c # cs" using assms(1) by (cases s) auto
  have c: "c \<noteq> CHR ''-''" "c \<noteq> CHR ''+''"
    using assms(2) s by (auto simp: is_digit_def)
  have ok: "digits_ok (c # cs)" using digits_ok_all [OF assms(1,2)] s by simp
  have "digit_count s \<le> int_max_str_digits"
    using digit_count_le [of s] assms(3) by (rule order_trans)
  then have "int_of_digits s (c # cs) = Inr (digits_value (c # cs))"
    using ok s by (simp add: int_of_digits_def)
  then show ?thesis
    unfolding py_int_def front rear Let_def using c by (simp add: s)
qed

lemma int_of_group_digits:
  "g \<noteq> None \<Longrightarrow> digit_string g \<Longrightarrow> short_group int_max_str_digits g \<Longrightarrow>
     \<exists>n. int_of_group g = Inr n"
  by (cases g) (auto simp: int_of_group_def digit_string_def short_group_def intro: py_int_digits)

text \<open>
  \<open>int\<close> refuses a number of more than 4300 digits, however it is written: with leading
  zeros, with a sign, between whitespace.
\<close>

lemma py_int_over_limit:
  assumes "\<forall>c \<in> set s. is_digit c" and "int_max_str_digits < length s"
  shows "py_int s = Inl (ValueError s)"
proof -
  have ne: "s \<noteq> []" using assms(2) by auto
  have front: "dropWhile int_isspace s = s"
    using assms(1) ne by (cases s) (auto simp: digit_not_space)
  have "rev s \<noteq> []" "\<forall>c \<in> set (rev s). is_digit c" using assms(1) ne by simp_all
  then have rear: "dropWhile int_isspace (rev s) = rev s"
    by (cases "rev s") (auto simp: digit_not_space)
  obtain c cs where s: "s = c # cs" using ne by (cases s) auto
  have c: "c \<noteq> CHR ''-''" "c \<noteq> CHR ''+''"
    using assms(1) s by (auto simp: is_digit_def)
  have "\<forall>c \<in> set s. c \<noteq> CHR ''_''" using assms(1) by (auto simp: is_digit_def)
  then have "filter (\<lambda>c. c \<noteq> CHR ''_'') s = s" by (simp add: filter_id_conv)
  then have "digit_count s = length s" by (simp add: digit_count_def)
  then have "int_of_digits s (c # cs) = Inl (ValueError s)"
    using assms(2) s by (simp add: int_of_digits_def)
  then show ?thesis
    unfolding py_int_def front rear Let_def using c by (simp add: s)
qed

lemma first_pattern_Some:
  "first_pattern ps s = Some gs \<Longrightarrow> \<exists>r \<in> set ps. re_match True r s = Some gs"
  by (induction ps) (auto split: option.splits)

lemma first_match_Some:
  "first_match ips s = Some (i, gs) \<Longrightarrow>
     \<exists>ps r. (i, ps) \<in> set ips \<and> r \<in> set ps \<and> re_match True r s = Some gs"
proof (induction ips)
  case Nil
  then show ?case by simp
next
  case (Cons a ips)
  obtain j ps where a: "a = (j, ps)" by (cases a)
  show ?case
  proof (cases "first_pattern ps s")
    case None
    then show ?thesis using Cons a by auto
  next
    case (Some g)
    then have "i = j" "gs = g" using Cons.prems a by simp_all
    then show ?thesis using first_pattern_Some [OF Some] a by auto
  qed
qed

lemma first_match_short:
  assumes "first_match intent_patterns t = Some (i, gs)" and "length t \<le> n"
  shows "\<forall>g \<in> set gs. short_group n g"
proof -
  obtain ps r where "re_match True r t = Some gs"
    using first_match_Some [OF assms(1)] by blast
  then have "\<forall>g \<in> set gs. short_group (length t) g" by (rule re_match_short)
  then show ?thesis using assms(2) short_group_mono by blast
qed

lemma app_patterns_groups:
  "\<forall>r \<in> set (open_app_patterns @ close_app_patterns @ play_music_patterns).
     group_count r = 1 \<and> sets_group 0 r"
  by code_simp

lemma send_email_patterns_groups:
  "\<forall>r \<in> set send_email_patterns. 1 \<le> group_count r \<and> sets_group 0 r"
  by code_simp

lemma set_reminder_patterns_groups:
  "\<forall>r \<in> set set_reminder_patterns. 1 \<le> group_count r \<and> sets_group 0 r \<and> digits_group 1 r"
  by code_simp

lemma set_timer_patterns_groups:
  "\<forall>r \<in> set set_timer_patterns.
     group_count r = 1 \<or> (group_count r = 2 \<and> sets_group 0 r \<and> digits_group 0 r)"
  by code_simp

lemma intent_patterns_lookup:
  assumes "(i, ps) \<in> set intent_patterns"
  shows "(i = ''open_app'' \<longrightarrow> ps = open_app_patterns)
       \<and> (i = ''close_app'' \<longrightarrow> ps = close_app_patterns)
       \<and> (i = ''play_music'' \<longrightarrow> ps = play_music_patterns)
       \<and> (i = ''send_email'' \<longrightarrow> ps = send_email_patterns)
       \<and> (i = ''set_reminder'' \<longrightarrow> ps = set_reminder_patterns)
       \<and> (i = ''set_timer'' \<longrightarrow> ps = set_timer_patterns)"
  using assms by (auto simp: intent_patterns_def)

lemma group_truthy_Some: "group_truthy g \<Longrightarrow> \<exists>s. g = Some s"
  by (cases g) (auto simp: group_truthy_def)

lemma extract_open_app:
  "gs \<noteq> [] \<Longrightarrow> gs ! 0 = Some s \<Longrightarrow>
     extract_entities ''open_app'' gs = Inr [''app_name'' \<mapsto> PStr (strip s)]"
  by (simp add: extract_entities_def and_then_def group_at_def strip_group_def)

lemma extract_close_app:
  "gs \<noteq> [] \<Longrightarrow> gs ! 0 = Some s \<Longrightarrow>
     extract_entities ''close_app'' gs = Inr [''app_name'' \<mapsto> PStr (strip s)]"
  by (simp add: extract_entities_def and_then_def group_at_def strip_group_def)

lemma extract_play_music:
  "gs \<noteq> [] \<Longrightarrow> gs ! 0 = Some s \<Longrightarrow>
     extract_entities ''play_music'' gs = Inr [''song_or_playlist'' \<mapsto> PStr (strip s)]"
  by (simp add: extract_entities_def and_then_def group_at_def strip_group_def)

lemma extract_send_email:
  assumes "gs \<noteq> []" and "gs ! 0 = Some s"
  shows "\<exists>ents. extract_entities ''send_email'' gs = Inr ents"
proof (cases "length gs > 1")
  case True
  show ?thesis
  proof (cases "group_truthy (gs ! 1)")
    case yes: True
    then obtain m where "gs ! 1 = Some m" using group_truthy_Some by blast
    then show ?thesis using assms True yes
      by (simp add: extract_entities_def and_then_def group_at_def strip_group_def)
  next
    case False
    then show ?thesis using assms
      by (simp add: extract_entities_def and_then_def group_at_def strip_group_def)
  qed
next
  case False
  then show ?thesis using assms
    by (simp add: extract_entities_def and_then_def group_at_def strip_group_def)
qed

lemma extract_set_reminder:
  assumes "gs \<noteq> []" and "gs ! 0 = Some s"
    and "length gs > 2 \<Longrightarrow> group_truthy (gs ! 1) \<Longrightarrow> \<exists>n. int_of_group (gs ! 1) = Inr n"
  shows "\<exists>ents. extract_entities ''set_reminder'' gs = Inr ents"
proof (cases "length gs > 2")
  case True
  show ?thesis
  proof (cases "group_truthy (gs ! 1)")
    case yes: True
    then obtain n where "int_of_group (gs ! 1) = Inr n" using assms(3) True by blast
    then show ?thesis using assms(1,2) True yes
      by (simp add: extract_entities_def and_then_def group_at_def strip_group_def)
  next
    case False
    then show ?thesis using assms(1,2)
      by (simp add: extract_entities_def and_then_def group_at_def strip_group_def)
  qed
next
  case False
  then show ?thesis using assms(1,2)
    by (simp add: extract_entities_def and_then_def group_at_def strip_group_def)
qed

lemma extract_set_timer:
  "length gs = 2 \<Longrightarrow> int_of_group (gs ! 0) = Inr n \<Longrightarrow>
     \<exists>ents. extract_entities ''set_timer'' gs = Inr ents"
  by (simp add: extract_entities_def and_then_def group_at_def)

lemma extract_get_weather: "\<exists>ents. extract_entities ''get_weather'' gs = Inr ents"
proof (cases "gs = []")
  case True
  then show ?thesis by (simp add: extract_entities_def)
next
  case ne: False
  show ?thesis
  proof (cases "group_truthy (gs ! 0)")
    case True
    then obtain s where "gs ! 0 = Some s" using group_truthy_Some by blast
    then show ?thesis using ne True
      by (simp add: extract_entities_def and_then_def group_at_def strip_group_def)
  next
    case False
    then show ?thesis using ne
      by (simp add: extract_entities_def and_then_def group_at_def)
  qed
qed

lemma extract_search_web: "\<exists>ents. extract_entities ''search_web'' gs = Inr ents"
proof (cases "gs = []")
  case True
  then show ?thesis by (simp add: extract_entities_def)
next
  case ne: False
  show ?thesis
  proof (cases "group_truthy (gs ! 0)")
    case True
    then obtain s where "gs ! 0 = Some s" using group_truthy_Some by blast
    then show ?thesis using ne True
      by (simp add: extract_entities_def and_then_def group_at_def strip_group_def)
  next
    case False
    then show ?thesis using ne
      by (simp add: extract_entities_def and_then_def group_at_def)
  qed
qed

lemma extract_search_youtube: "\<exists>ents. extract_entities ''search_youtube'' gs = Inr ents"
proof (cases "gs = []")
  case True
  then show ?thesis by (simp add: extract_entities_def)
next
  case ne: False
  show ?thesis
  proof (cases "group_truthy (gs ! 0)")
    case True
    then obtain s where "gs ! 0 = Some s" using group_truthy_Some by blast
    then show ?thesis using ne True
      by (simp add: extract_entities_def and_then_def group_at_def strip_group_def)
  next
    case False
    then show ?thesis using ne
      by (simp add: extract_entities_def and_then_def group_at_def)
  qed
qed

lemma extract_search_wikipedia: "\<exists>ents. extract_entities ''search_wikipedia'' gs = Inr ents"
proof (cases "gs = []")
  case True
  then show ?thesis by (simp add: extract_entities_def)
next
  case ne: False
  show ?thesis
  proof (cases "group_truthy (gs ! 0)")
    case True
    then obtain s where "gs ! 0 = Some s" using group_truthy_Some by blast
    then show ?thesis using ne True
      by (simp add: extract_entities_def and_then_def group_at_def strip_group_def)
  next
    case False
    then show ?thesis using ne
      by (simp add: extract_entities_def and_then_def group_at_def)
  qed
qed

lemma extract_none:
  assumes "i \<noteq> ''open_app''" "i \<noteq> ''close_app''" "i \<noteq> ''play_music''" "i \<noteq> ''send_email''"
    "i \<noteq> ''set_reminder''" "i \<noteq> ''set_timer''"
    "i \<noteq> ''get_weather''" "i \<noteq> ''search_web''" "i \<noteq> ''search_youtube''" "i \<noteq> ''search_wikipedia''"
  shows "extract_entities i gs = Inr Map.empty"
  using assms unfolding extract_entities_def
  by (simp only: simp_thms if_False if_True list.set insert_iff empty_iff if_cancel)

lemma extract_entities_returns:
  assumes "first_match intent_patterns t = Some (i, gs)"
    and "\<not> (i = ''set_timer'' \<and> length gs = 1)"
    and "\<forall>g \<in> set gs. short_group int_max_str_digits g"
  shows "\<exists>ents. extract_entities i gs = Inr ents"
proof -
  obtain ps r where ps: "(i, ps) \<in> set intent_patterns" and r: "r \<in> set ps"
    and m: "re_match True r t = Some gs"
    using first_match_Some [OF assms(1)] by blast
  note lk = intent_patterns_lookup [OF ps]
  note rg = re_match_groups [OF m]
  have first_group: "gs \<noteq> [] \<and> (\<exists>s. gs ! 0 = Some s)" if "1 \<le> group_count r" "sets_group 0 r"
    using rg(1) rg(2) [of 0] that by auto
  consider (open_app) "i = ''open_app''" | (close_app) "i = ''close_app''"
    | (play_music) "i = ''play_music''"
    | (email) "i = ''send_email''" | (reminder) "i = ''set_reminder''" | (timer) "i = ''set_timer''"
    | (weather) "i = ''get_weather''" | (web) "i = ''search_web''"
    | (youtube) "i = ''search_youtube''" | (wikipedia) "i = ''search_wikipedia''"
    | (other) "i \<noteq> ''open_app''" "i \<noteq> ''close_app''" "i \<noteq> ''play_music''"
        "i \<noteq> ''send_email''" "i \<noteq> ''set_reminder''" "i \<noteq> ''set_timer''"
        "i \<noteq> ''get_weather''" "i \<noteq> ''search_web''" "i \<noteq> ''search_youtube''"
        "i \<noteq> ''search_wikipedia''"
    by blast
  then show ?thesis
  proof cases
    case open_app
    then have "r \<in> set (open_app_patterns @ close_app_patterns @ play_music_patterns)"
      using lk r by simp
    then have "group_count r = 1 \<and> sets_group 0 r" using app_patterns_groups by blast
    then show ?thesis using first_group extract_open_app open_app by fastforce
  next
    case close_app
    then have "r \<in> set (open_app_patterns @ close_app_patterns @ play_music_patterns)"
      using lk r by simp
    then have "group_count r = 1 \<and> sets_group 0 r" using app_patterns_groups by blast
    then show ?thesis using first_group extract_close_app close_app by fastforce
  next
    case play_music
    then have "r \<in> set (open_app_patterns @ close_app_patterns @ play_music_patterns)"
      using lk r by simp
    then have "group_count r = 1 \<and> sets_group 0 r" using app_patterns_groups by blast
    then show ?thesis using first_group extract_play_music play_music by fastforce
  next
    case email
    then have "r \<in> set send_email_patterns" using lk r by simp
    then have "1 \<le> group_count r \<and> sets_group 0 r" using send_email_patterns_groups by blast
    then show ?thesis using first_group extract_send_email email by blast
  next
    case reminder
    then have "r \<in> set set_reminder_patterns" using lk r by simp
    then have g: "1 \<le> group_count r \<and> sets_group 0 r \<and> digits_group 1 r"
      using set_reminder_patterns_groups by blast
    have "\<exists>n. int_of_group (gs ! 1) = Inr n" if "length gs > 2" "group_truthy (gs ! 1)"
    proof -
      have "digit_string (gs ! 1)" using rg(3) [of 1] rg(1) g that(1) by simp
      moreover have "gs ! 1 \<noteq> None" using that(2) group_truthy_Some by fastforce
      moreover have "short_group int_max_str_digits (gs ! 1)" using assms(3) that(1) by simp
      ultimately show ?thesis using int_of_group_digits by blast
    qed
    then show ?thesis using first_group g extract_set_reminder reminder by blast
  next
    case timer
    then have "r \<in> set set_timer_patterns" using lk r by simp
    then have "group_count r = 1 \<or> (group_count r = 2 \<and> sets_group 0 r \<and> digits_group 0 r)"
      using set_timer_patterns_groups by blast
    then have g: "group_count r = 2" "sets_group 0 r" "digits_group 0 r"
      using assms(2) timer rg(1) by auto
    then have len: "length gs = 2" and "gs ! 0 \<noteq> None" "digit_string (gs ! 0)"
      using rg(1) rg(2) [of 0] rg(3) [of 0] by auto
    moreover have "short_group int_max_str_digits (gs ! 0)" using assms(3) len by simp
    ultimately obtain n where n: "int_of_group (gs ! 0) = Inr n" using int_of_group_digits by blast
    show ?thesis using extract_set_timer [OF len n] timer by simp
  next
    case weather
    then show ?thesis using extract_get_weather by simp
  next
    case web
    then show ?thesis using extract_search_web by simp
  next
    case youtube
    then show ?thesis using extract_search_youtube by simp
  next
    case wikipedia
    then show ?thesis using extract_search_wikipedia by simp
  next
    case other
    then show ?thesis using extract_none by blast
  qed
qed

lemma password_manager_match:
  "first_match intent_patterns (lower (strip ''open password manager''))
     = Some (''open_app'', [Some ''password manager''])"
  by code_simp

lemma password_manager_sensitive: "is_sensitive (lower (strip ''open password manager''))"
  by code_simp

lemma password_manager_fallback:
  "fallback_process_command 0 ''open password manager'' = Inr password_manager_command"
proof -
  have l: "lower (strip ''open password manager'') = ''open password manager''" by code_simp
  have s: "strip ''password manager'' = ''password manager''" by code_simp
  show ?thesis
    unfolding fallback_process_command_def Let_def password_manager_match
    using password_manager_sensitive
    by (simp add: l extract_entities_def and_then_def group_at_def strip_group_def s
        password_manager_command_def)
qed

text \<open>
  What the fallback processor builds from a match: the command has the intent of the
  first matching pattern and confidence 0.7, and its \<open>requires_confirmation\<close> holds
  exactly when some pattern of the lexical denylist is found in the stripped, lowered
  text or the intent is one of \<open>shutdown_system\<close>, \<open>restart_system\<close>,
  \<open>send_email\<close>, whichever pattern matched.  A command does result when the pattern
  is not the one-group pattern of \<open>set_timer\<close> and no group is longer than \<open>int\<close>
  allows a number to be.
\<close>

lemma fallback_match_flags:
  assumes "first_match intent_patterns (lower (strip text0)) = Some (i, groups)"
  shows "(\<forall>c. fallback_process_command now text0 = Inr c \<longrightarrow>
            intent c = i \<and> confidence c = 0.7
            \<and> (requires_confirmation c \<longleftrightarrow>
                 (\<exists>r \<in> set sensitive_patterns. re_search False r (lower (strip text0)))
                 \<or> i \<in> {''shutdown_system'', ''restart_system'', ''send_email''}))
       \<and> (\<not> (i = ''set_timer'' \<and> length groups = 1)
            \<and> (\<forall>g \<in> set groups. short_group int_max_str_digits g) \<longrightarrow>
            (\<exists>c. fallback_process_command now text0 = Inr c))"
proof (rule conjI)
  show "\<forall>c. fallback_process_command now text0 = Inr c \<longrightarrow>
            intent c = i \<and> confidence c = 0.7
            \<and> (requires_confirmation c \<longleftrightarrow>
                 (\<exists>r \<in> set sensitive_patterns. re_search False r (lower (strip text0)))
                 \<or> i \<in> {''shutdown_system'', ''restart_system'', ''send_email''})"
    using assms
    by (auto simp: fallback_process_command_def Let_def and_then_def is_sensitive_def list_ex_iff
        split: sum.splits)
next
  show "\<not> (i = ''set_timer'' \<and> length groups = 1)
          \<and> (\<forall>g \<in> set groups. short_group int_max_str_digits g) \<longrightarrow>
          (\<exists>c. fallback_process_command now text0 = Inr c)"
  proof
    assume "\<not> (i = ''set_timer'' \<and> length groups = 1)
          \<and> (\<forall>g \<in> set groups. short_group int_max_str_digits g)"
    then obtain ents where "extract_entities i groups = Inr ents"
      using extract_entities_returns [OF assms] by blast
    then show "\<exists>c. fallback_process_command now text0 = Inr c"
      using assms by (simp add: fallback_process_command_def Let_def and_then_def)
  qed
qed

lemma password_manager_flags:
  "fallback_process_command 0 ''open password manager'' = Inr password_manager_command
   \<and> intent password_manager_command = ''open_app''
   \<and> confidence password_manager_command = 0.7
   \<and> requires_confirmation password_manager_command"
  using password_manager_fallback by (simp add: password_manager_command_def)

lemma countdown_delete_files_match:
  "first_match intent_patterns (lower (strip ''countdown delete files''))
     = Some (''set_timer'', [Some ''delete files''])"
  by code_simp

lemma countdown_delete_files_sensitive:
  "is_sensitive (lower (strip ''countdown delete files''))"
  by code_simp

text \<open>
  C8 promises, for every utterance that a fallback pattern matches, a command of
  confidence 0.7 whose \<open>requires_confirmation\<close> is set when the lowered text matches
  the lexical denylist.  The code does not deliver it for "countdown delete files": the
  first pattern that matches is the one-group pattern of \<open>set_timer\<close>,
  \<^verbatim>\<open>(?:count|countdown)\s+(.+?)$\<close>, and the denylist pattern
  \<^verbatim>\<open>\b(delete|remove|uninstall)\s+.+\b\<close> is found in the text, but the entity
  code calls \<open>int\<close> on the group "delete files" and the \<open>ValueError\<close> leaves
  \<open>FallbackProcessor.process_command\<close> and, with the remote path disabled,
  \<open>NLPProcessor.process_command\<close>: no command results, so none with confidence 0.7
  and \<open>requires_confirmation\<close> set.
\<close>

theorem countdown_delete_files_raises:
  "first_match intent_patterns (lower (strip ''countdown delete files''))
     = Some (''set_timer'', [Some ''delete files''])
   \<and> is_sensitive (lower (strip ''countdown delete files''))
   \<and> (\<forall>now. fallback_process_command now ''countdown delete files''
               = Inl (ValueError ''delete files''))
   \<and> fst (process_command example_resolver_world offline_resolver ''countdown delete files'')
       = Inl (ValueError ''delete files'')"
proof -
  have s: "strip ''countdown delete files'' = ''countdown delete files''" by code_simp
  have i: "py_int ''delete files'' = Inl (ValueError ''delete files'')" by code_simp
  have f: "fallback_process_command t ''countdown delete files''
             = Inl (ValueError ''delete files'')" for t
    unfolding fallback_process_command_def Let_def countdown_delete_files_match
    by (simp add: extract_entities_def and_then_def group_at_def int_of_group_def i)
  have p: "fst (process_command example_resolver_world offline_resolver ''countdown delete files'')
       = Inl (ValueError ''delete files'')"
    using f by (simp add: process_command_def s offline_resolver_def example_resolver_def Let_def)
  have "\<forall>now. fallback_process_command now ''countdown delete files''
               = Inl (ValueError ''delete files'')"
    using f by (rule allI)
  then have "(\<forall>now. fallback_process_command now ''countdown delete files''
               = Inl (ValueError ''delete files''))
   \<and> fst (process_command example_resolver_world offline_resolver ''countdown delete files'')
       = Inl (ValueError ''delete files'')"
    using p by (rule conjI)
  then have "is_sensitive (lower (strip ''countdown delete files''))
   \<and> (\<forall>now. fallback_process_command now ''countdown delete files''
               = Inl (ValueError ''delete files''))
   \<and> fst (process_command example_resolver_world offline_resolver ''countdown delete files'')
       = Inl (ValueError ''delete files'')"
    by (rule conjI [OF countdown_delete_files_sensitive])
  then show ?thesis
    by (rule conjI [OF countdown_delete_files_match])
qed

lemma fallback_returns:
  assumes "\<not> (\<exists>g. first_match intent_patterns (lower (strip s)) = Some (''set_timer'', [g]))"
    and "length s \<le> int_max_str_digits"
  shows "\<exists>c. fallback_process_command now s = Inr c"
proof (cases "first_match intent_patterns (lower (strip s))")
  case None
  then show ?thesis by (simp add: fallback_process_command_def Let_def)
next
  case (Some m)
  obtain i gs where m: "m = (i, gs)" by (cases m)
  have "\<not> (i = ''set_timer'' \<and> length gs = 1)"
  proof
    assume a: "i = ''set_timer'' \<and> length gs = 1"
    then obtain g where "gs = [g]" by (cases gs) auto
    then show False using assms(1) Some m a by simp
  qed
  moreover have "length (lower (strip s)) \<le> int_max_str_digits"
    using lower_strip_length [of s] assms(2) by (rule order_trans)
  then have "\<forall>g \<in> set gs. short_group int_max_str_digits g"
    using first_match_short Some m by blast
  ultimately obtain ents where "extract_entities i gs = Inr ents"
    using extract_entities_returns Some m by blast
  then show ?thesis
    using Some m by (simp add: fallback_process_command_def Let_def and_then_def)
qed

text \<open>
  C4, amended: a blank utterance (empty or only whitespace) is answered with the command
  of intent "error", confidence 0 and \<open>requires_confirmation\<close> false; a non-blank
  utterance for which the remote path is disabled or fails and which no fallback pattern
  matches is answered with intent "general_query", confidence 0.3 and
  \<open>requires_confirmation\<close> false; and for every utterance of at most 4300 characters
  (the most digits \<open>int\<close> accepts in a number), every resolver state and every world,
  \<open>process_command\<close> returns a command and raises nothing, unless the first fallback
  pattern that matches the stripped, lowered text is the one-group pattern of
  \<open>set_timer\<close> (its third).
\<close>

theorem resolve_returns_command:
  "(text0 = [] \<or> strip text0 = [] \<longrightarrow>
      fst (process_command w p text0) =
        Inr \<lparr>intent = ''error'', entities = [''error'' \<mapsto> PStr ''Empty command''],
             confidence = 0, requires_confirmation = False, raw_text = text0,
             processing_method = ''error'', timestamp = clock w (clock_reads p)\<rparr>)
   \<and> (strip text0 \<noteq> []
        \<and> (\<not> (use_openai p \<and> openai_client p) \<or> fst (process_with_openai w p (strip text0)) = None)
        \<and> (\<forall>(i, ps) \<in> set intent_patterns. \<forall>r \<in> set ps.
              re_match True r (lower (strip text0)) = None) \<longrightarrow>
      (\<exists>c. fst (process_command w p text0) = Inr c \<and> intent c = ''general_query''
            \<and> confidence c = 0.3 \<and> \<not> requires_confirmation c))
   \<and> (length text0 \<le> int_max_str_digits
        \<and> \<not> (\<exists>g. first_match intent_patterns (lower (strip text0)) = Some (''set_timer'', [g])) \<longrightarrow>
      (\<exists>c. fst (process_command w p text0) = Inr c))"
proof (intro conjI impI)
  assume "text0 = [] \<or> strip text0 = []"
  then show "fst (process_command w p text0) =
        Inr \<lparr>intent = ''error'', entities = [''error'' \<mapsto> PStr ''Empty command''],
             confidence = 0, requires_confirmation = False, raw_text = text0,
             processing_method = ''error'', timestamp = clock w (clock_reads p)\<rparr>"
    by (auto simp: process_command_def)
next
  assume a: "strip text0 \<noteq> []
        \<and> (\<not> (use_openai p \<and> openai_client p) \<or> fst (process_with_openai w p (strip text0)) = None)
        \<and> (\<forall>(i, ps) \<in> set intent_patterns. \<forall>r \<in> set ps.
              re_match True r (lower (strip text0)) = None)"
  then have nm: "first_match intent_patterns (lower (strip (strip text0))) = None"
    by (simp add: first_match_None_iff strip_idem)
  have ne: "text0 \<noteq> []" using a by auto
  have fb: "\<exists>c. fallback_process_command t (strip text0) = Inr c \<and> intent c = ''general_query''
            \<and> confidence c = 0.3 \<and> \<not> requires_confirmation c" for t
    using nm by (simp add: fallback_process_command_def Let_def)
  obtain q where q: "(if use_openai p \<and> openai_client p then process_with_openai w p (strip text0)
                    else (None, p)) = (None, q)"
  proof (cases "use_openai p \<and> openai_client p")
    case True
    then have "fst (process_with_openai w p (strip text0)) = None" using a by simp
    then show ?thesis using that True by (cases "process_with_openai w p (strip text0)") simp
  next
    case False
    then show ?thesis using that [of p] by auto
  qed
  obtain c where c: "fallback_process_command (clock w (clock_reads q)) (strip text0) = Inr c"
     "intent c = ''general_query''" "confidence c = 0.3" "\<not> requires_confirmation c"
    using fb by blast
  have "fst (process_command w p text0) = Inr c"
    using a ne q c(1) by (simp add: process_command_def Let_def)
  then show "\<exists>c. fst (process_command w p text0) = Inr c \<and> intent c = ''general_query''
            \<and> confidence c = 0.3 \<and> \<not> requires_confirmation c"
    using c by blast
next
  assume a: "length text0 \<le> int_max_str_digits
        \<and> \<not> (\<exists>g. first_match intent_patterns (lower (strip text0)) = Some (''set_timer'', [g]))"
  show "\<exists>c. fst (process_command w p text0) = Inr c"
  proof (cases "text0 = [] \<or> strip text0 = []")
    case True
    then show ?thesis by (auto simp: process_command_def)
  next
    case False
    let ?r = "if use_openai p \<and> openai_client p then process_with_openai w p (strip text0)
              else (None, p)"
    obtain x q where q: "?r = (x, q)" by (cases ?r)
    show ?thesis
    proof (cases x)
      case None
      have "\<not> (\<exists>g. first_match intent_patterns (lower (strip (strip text0))) = Some (''set_timer'', [g]))"
        using a by (simp add: strip_idem)
      moreover have "length (strip text0) \<le> int_max_str_digits"
        using strip_length [of text0] a by simp
      ultimately obtain c where
        "fallback_process_command (clock w (clock_reads q)) (strip text0) = Inr c"
        using fallback_returns by blast
      then show ?thesis
        using False q None by (simp add: process_command_def Let_def)
    next
      case (Some c)
      then show ?thesis
        using False q by (simp add: process_command_def Let_def)
    qed
  qed
qed

lemma open_chrome_match:
  "first_match intent_patterns (lower (strip ''open chrome'')) = Some (''open_app'', [Some ''chrome''])"
  by code_simp

theorem resolve_returns_command_witness:
  "fst (process_command example_resolver_world example_resolver []) =
     Inr \<lparr>intent = ''error'', entities = [''error'' \<mapsto> PStr ''Empty command''],
          confidence = 0, requires_confirmation = False, raw_text = [],
          processing_method = ''error'', timestamp = 0\<rparr>
   \<and> (\<exists>c. fst (process_command example_resolver_world offline_resolver ''hello'') = Inr c
         \<and> intent c = ''general_query'' \<and> confidence c = 0.3 \<and> \<not> requires_confirmation c)
   \<and> (\<exists>c. fst (process_command example_resolver_world offline_resolver ''open chrome'') = Inr c)"
proof -
  have one: "fst (process_command example_resolver_world example_resolver []) =
     Inr \<lparr>intent = ''error'', entities = [''error'' \<mapsto> PStr ''Empty command''],
          confidence = 0, requires_confirmation = False, raw_text = [],
          processing_method = ''error'', timestamp = 0\<rparr>"
    using resolve_returns_command [of "[]" example_resolver_world example_resolver]
    by (simp add: example_resolver_world_def example_resolver_def)
  have a: "strip ''hello'' \<noteq> []"
    by (simp add: strip_hello)
  have b: "\<not> (use_openai offline_resolver \<and> openai_client offline_resolver)"
    by (simp add: offline_resolver_def)
  have c: "\<forall>(i, ps) \<in> set intent_patterns. \<forall>r \<in> set ps. re_match True r (lower (strip ''hello'')) = None"
    using no_match_hello by (simp only: strip_hello first_match_None_iff)
  have two: "\<exists>c. fst (process_command example_resolver_world offline_resolver ''hello'') = Inr c
         \<and> intent c = ''general_query'' \<and> confidence c = 0.3 \<and> \<not> requires_confirmation c"
    using resolve_returns_command [of "''hello''" example_resolver_world offline_resolver] a b c
    by blast
  have d: "\<not> (\<exists>g. first_match intent_patterns (lower (strip ''open chrome'')) = Some (''set_timer'', [g]))"
    by (simp add: open_chrome_match)
  have e: "length ''open chrome'' \<le> int_max_str_digits"
    by (simp add: int_max_str_digits_def)
  have three: "\<exists>c. fst (process_command example_resolver_world offline_resolver ''open chrome'') = Inr c"
    using resolve_returns_command [of "''open chrome''" example_resolver_world offline_resolver] d e
    by blast
  from one two three show ?thesis by blast
qed

text \<open>
  The one-group pattern of \<open>set_timer\<close>, \<^verbatim>\<open>(?:count|countdown)\s+(.+?)$\<close>, makes
  the fallback processor raise whenever it is the first to match: the entity code calls
  \<open>int\<close> on the group, which need not be a number, and then reads a second group,
  which the pattern does not have.  With the remote path disabled, "count sheep" makes
  \<open>process_command\<close> raise a \<open>ValueError\<close>.
\<close>

lemma set_timer_single_group_raises:
  assumes "first_match intent_patterns (lower (strip text0)) = Some (''set_timer'', [g])"
  shows "\<exists>e. fallback_process_command now text0 = Inl e"
proof -
  have "\<exists>e. extract_entities ''set_timer'' [g] = Inl e"
    by (cases "int_of_group g") (simp_all add: extract_entities_def and_then_def group_at_def)
  then obtain e where "extract_entities ''set_timer'' [g] = Inl e" ..
  then have "fallback_process_command now text0 = Inl e"
    unfolding fallback_process_command_def Let_def assms by (simp add: and_then_def)
  then show ?thesis ..
qed

lemma count_sheep_match:
  "first_match intent_patterns (lower (strip ''count sheep'')) = Some (''set_timer'', [Some ''sheep''])"
  by code_simp

lemma count_sheep_raises:
  "fst (process_command example_resolver_world offline_resolver ''count sheep'')
     = Inl (ValueError ''sheep'')"
proof -
  have s: "strip ''count sheep'' = ''count sheep''" by code_simp
  have i: "py_int ''sheep'' = Inl (ValueError ''sheep'')" by code_simp
  have "fallback_process_command t ''count sheep'' = Inl (ValueError ''sheep'')" for t
    unfolding fallback_process_command_def Let_def count_sheep_match
    by (simp add: extract_entities_def and_then_def group_at_def int_of_group_def i)
  then show ?thesis
    by (simp add: process_command_def s offline_resolver_def example_resolver_def Let_def)
qed

subsection \<open>The producers and the full queue\<close>

lemma command_queue_put_stays_full:
  assumes "queue_maxsize \<le> length (command_queue l)" and "stays_full w l t"
  shows "command_queue_put w l item t
           = (Inl QueueFull, l\<lparr>full_puts := full_puts l + 1, events := events l @ [PutWaited t]\<rparr>)"
  using assms
  by (simp add: command_queue_put_def stays_full_def Let_def split: option.splits)

lemma command_queue_put_slot_freed:
  assumes "queue_maxsize \<le> length (command_queue l)"
    and "slot_freed w (full_puts l) = Some s" and "s < t"
  shows "command_queue_put w l item t
           = (Inr (), l\<lparr>full_puts := full_puts l + 1,
                          command_queue := tl (command_queue l) @ [item],
                          events := events l @ [PutWaited s]\<rparr>)"
  using assms by (simp add: command_queue_put_def Let_def)

lemma enqueue_command_stays_full:
  assumes "queue_maxsize \<le> length (command_queue l)" and "stays_full w l 1"
  shows "enqueue_command w l txt src
           = speak (l\<lparr>now_reads := now_reads l + 1, full_puts := full_puts l + 1,
                        events := events l @ [PutWaited 1,
                          Logged LogWarning ''Command queue is full, dropping command'']\<rparr>)
               busy_sentence"
proof -
  let ?l1 = "l\<lparr>now_reads := now_reads l + 1\<rparr>"
  have a: "queue_maxsize \<le> length (command_queue ?l1)" using assms(1) by simp
  have b: "stays_full w ?l1 1" using assms(2) by (simp add: stays_full_def)
  show ?thesis
    unfolding enqueue_command_def Let_def command_queue_put_stays_full [OF a b]
    by (simp add: logger_def)
qed

lemma enqueue_command_slot_freed:
  assumes "queue_maxsize \<le> length (command_queue l)"
    and "slot_freed w (full_puts l) = Some s" and "s < 1"
  shows "enqueue_command w l txt src
           = (Inr (), l\<lparr>now_reads := now_reads l + 1, full_puts := full_puts l + 1,
                command_queue := tl (command_queue l)
                  @ [\<lparr>queue = [txt], timestamp_q = datetime_now w (now_reads l), source = src\<rparr>],
                events := events l @ [PutWaited s]\<rparr>)"
proof -
  let ?l1 = "l\<lparr>now_reads := now_reads l + 1\<rparr>"
  have a: "queue_maxsize \<le> length (command_queue ?l1)" using assms(1) by simp
  have b: "slot_freed w (full_puts ?l1) = Some s" using assms(2) by simp
  show ?thesis
    unfolding enqueue_command_def Let_def command_queue_put_slot_freed [OF a b assms(3)]
    by simp
qed



lemma is_wake_word_recognitions:
  "is_wake_word (l\<lparr>recognitions := n\<rparr>) k = is_wake_word l k"
  by (simp add: is_wake_word_def)


lemma wake_word_without_speak:
  assumes "wake_word_enabled l" and "\<not> processing_command l"
    and "speech_engine l = SpeechEngine"
    and "recognize_speech w (recognitions l) 2 = Some k" and "k \<noteq> []" and "is_wake_word l k"
  shows "wake_word_detection_step w l
           = l\<lparr>recognitions := recognitions l + 1,
               events := events l @
                 [Logged LogInfo ''Wake word detected'',
                  Logged LogError (''Error in wake word detection: ''
                    @ attribute_error_str (AttributeError ''SpeechEngine'' ''speak'')),
                  Slept 1]\<rparr>"
proof -
  have w: "is_wake_word (l\<lparr>recognitions := Suc (recognitions l)\<rparr>) k"
    using assms(6) by (simp only: is_wake_word_recognitions)
  show ?thesis
    using assms(1-5) w
    by (simp add: wake_word_detection_step_def wake_word_listen_def recognize_def logger_def
        speak_def time_sleep_def raised_str_def Let_def)
qed









end
